theory Spec2Isabelle
  imports Complex_Main "HOL-Library.Sublist"
begin

section \<open>The benchmark harness of scripts/compare_strategies.py and scripts/validate_risk_filter.py\<close>

text \<open>
  Both scripts drive the external evaluator over a matrix of trials, search its output for
  one report line with a regular expression, collect one record per trial, write the
  records to a CSV table and print summary statistics.

  Conventions of the embedding.
  \<^item> A Python \<open>str\<close> is a \<open>string\<close>; its characters are the code points below 256.
  \<^item> A Python \<open>float\<close> is a \<open>rat\<close>: the decimal value read by \<open>float()\<close> is kept
    exactly; rounding to a double, overflow to infinity and underflow to zero are left
    out.
  \<^item> A Python \<open>int\<close> is an \<open>int\<close>. The interpreter's limit on the number of digits
    \<open>int()\<close> reads is left out.
  \<^item> An exception is a value of type \<open>exn\<close>; code that may raise returns \<open>exn + 'a\<close>.
    Interrupts from outside the program, which are no \<open>Exception\<close>, are left out.
\<close>

subsection \<open>The regular expression of \<open>run_benchmark\<close>\<close>

text \<open>
  \<^verbatim>\<open>re.search(r'Return:\s*([-\d.]+)%.*?Net:\s*\$([-\d.]+).*?Trades:\s*(\d+)', output)\<close>

  Python's matcher backtracks: a greedy repetition tries the longest run first and gives
  characters back one at a time, a lazy one tries the shortest first, and the first way
  through the whole pattern wins. Each piece of the pattern is a function that takes the
  matcher of the rest of the pattern as its continuation \<open>k\<close>.
\<close>

text \<open>\<open>\s\<close> on a \<open>str\<close> pattern: the Unicode white space below code point 256.\<close>

definition is_space :: "char \<Rightarrow> bool" where
  "is_space c = (of_char c \<in> {9, 10, 11, 12, 13, 28, 29, 30, 31, 32, 133, 160 :: nat})"

text \<open>\<open>\d\<close>: the decimal digits; below code point 256 these are \<open>0\<close> to \<open>9\<close>.\<close>

definition is_digit :: "char \<Rightarrow> bool" where
  "is_digit c = (c \<in> set ''0123456789'')"

text \<open>The class \<open>[-\d.]\<close>.\<close>

definition is_num_char :: "char \<Rightarrow> bool" where
  "is_num_char c = (c = CHR ''-'' \<or> is_digit c \<or> c = CHR ''.'')"

text \<open>\<open>.\<close> without the DOTALL flag: any character except the newline.\<close>

definition is_dot :: "char \<Rightarrow> bool" where
  "is_dot c = (c \<noteq> CHR 0x0A)"

text \<open>A literal piece of the pattern.\<close>

definition lit :: "string \<Rightarrow> (string \<Rightarrow> 'r option) \<Rightarrow> string \<Rightarrow> 'r option" where
  "lit l k s = (if prefix l s then k (drop (length l) s) else None)"

text \<open>\<open>X*\<close>, greedy: take a character of the class if there is one and go on; when the
  rest fails with it, try the rest without it.\<close>

fun greedy_star :: "(char \<Rightarrow> bool) \<Rightarrow> (string \<Rightarrow> 'r option) \<Rightarrow> string \<Rightarrow> 'r option" where
  "greedy_star P k [] = k []"
| "greedy_star P k (c # cs) =
     (if P c then (case greedy_star P k cs of Some r \<Rightarrow> Some r | None \<Rightarrow> k (c # cs))
      else k (c # cs))"

text \<open>\<open>(X+)\<close>, a greedy capturing group: \<open>acc\<close> is the text captured so far, handed to the
  continuation with the rest of the input.\<close>

fun greedy_more :: "(char \<Rightarrow> bool) \<Rightarrow> (string \<Rightarrow> string \<Rightarrow> 'r option) \<Rightarrow> string \<Rightarrow> string \<Rightarrow> 'r option" where
  "greedy_more P k acc [] = k acc []"
| "greedy_more P k acc (c # cs) =
     (if P c then (case greedy_more P k (acc @ [c]) cs of Some r \<Rightarrow> Some r | None \<Rightarrow> k acc (c # cs))
      else k acc (c # cs))"

fun group_plus :: "(char \<Rightarrow> bool) \<Rightarrow> (string \<Rightarrow> string \<Rightarrow> 'r option) \<Rightarrow> string \<Rightarrow> 'r option" where
  "group_plus P k [] = None"
| "group_plus P k (c # cs) = (if P c then greedy_more P k [c] cs else None)"

text \<open>\<open>X*?\<close>, lazy: try the rest of the pattern here first; when it fails, skip one
  character of the class and try again.\<close>

fun lazy_star :: "(char \<Rightarrow> bool) \<Rightarrow> (string \<Rightarrow> 'r option) \<Rightarrow> string \<Rightarrow> 'r option" where
  "lazy_star P k [] = k []"
| "lazy_star P k (c # cs) =
     (case k (c # cs) of Some r \<Rightarrow> Some r
      | None \<Rightarrow> if P c then lazy_star P k cs else None)"

text \<open>
  The pattern, read from its end: \<^verbatim>\<open>Trades:\s*(\d+)\<close>, before it
  \<^verbatim>\<open>Net:\s*\$([-\d.]+).*?\<close>, before it \<^verbatim>\<open>Return:\s*([-\d.]+)%.*?\<close>. \<open>match_here s\<close> is
  the whole pattern matched at the start of \<open>s\<close>; the result is the three groups.
\<close>

definition trades_field :: "string \<Rightarrow> string \<Rightarrow> string \<Rightarrow> (string \<times> string \<times> string) option" where
  "trades_field g1 g2 =
     lit ''Trades:'' (greedy_star is_space (group_plus is_digit (\<lambda>g3 rest. Some (g1, g2, g3))))"

definition net_field :: "string \<Rightarrow> string \<Rightarrow> (string \<times> string \<times> string) option" where
  "net_field g1 =
     lit ''Net:'' (greedy_star is_space (lit ''$'' (group_plus is_num_char (\<lambda>g2.
       lazy_star is_dot (trades_field g1 g2)))))"

definition match_here :: "string \<Rightarrow> (string \<times> string \<times> string) option" where
  "match_here =
     lit ''Return:'' (greedy_star is_space (group_plus is_num_char (\<lambda>g1.
       lit ''%'' (lazy_star is_dot (net_field g1)))))"

text \<open>\<open>re.search\<close>: the match at the leftmost position of the text that has one.\<close>

fun re_search :: "string \<Rightarrow> (string \<times> string \<times> string) option" where
  "re_search [] = match_here []"
| "re_search (c # cs) =
     (case match_here (c # cs) of Some g \<Rightarrow> Some g | None \<Rightarrow> re_search cs)"

subsection \<open>Numeric conversion\<close>

datatype exn =
    TimeoutExpired
  | Exception string
  | KeyError string

text \<open>
  \<open>exn\<close> holds what the harness can see raised: \<open>subprocess.TimeoutExpired\<close>, any other
  subclass of \<open>Exception\<close> with the text \<open>str(e)\<close> of the exception, and the \<open>KeyError\<close>
  of a dictionary lookup.
\<close>

text \<open>The value of a run of decimal digits, most significant first.\<close>

definition digit_val :: "char \<Rightarrow> nat" where
  "digit_val c = of_char c - 48"

definition digits_val :: "string \<Rightarrow> nat" where
  "digits_val ds = foldl (\<lambda>n c. 10 * n + digit_val c) 0 ds"

text \<open>
  \<open>float(s)\<close> for the texts groups 1 and 2 can capture, which consist of characters of
  \<open>[-\d.]\<close>: an optional minus sign, then digits with at most one point among them and
  at least one digit. Anything else raises \<open>ValueError\<close>.
\<close>

definition float_body_ok :: "string \<Rightarrow> bool" where
  "float_body_ok b =
     (list_all (\<lambda>c. is_digit c \<or> c = CHR ''.'') b
      \<and> length (filter (\<lambda>c. c = CHR ''.'') b) \<le> 1
      \<and> list_ex is_digit b)"

definition float_body_val :: "string \<Rightarrow> rat" where
  "float_body_val b =
     (let ip = takeWhile (\<lambda>c. c \<noteq> CHR ''.'') b;
          fp = drop 1 (dropWhile (\<lambda>c. c \<noteq> CHR ''.'') b)
      in of_nat (digits_val ip) + of_nat (digits_val fp) / 10 ^ length fp)"

definition float_error :: "string \<Rightarrow> exn" where
  "float_error s = Exception (''could not convert string to float: '' @ [CHR 0x27] @ s @ [CHR 0x27])"

definition py_float :: "string \<Rightarrow> exn + rat" where
  "py_float s =
     (case s of
        [] \<Rightarrow> Inl (float_error s)
      | c # b \<Rightarrow>
          if c = CHR ''-'' then
            (if float_body_ok b then Inr (- float_body_val b) else Inl (float_error s))
          else
            (if float_body_ok s then Inr (float_body_val s) else Inl (float_error s)))"

text \<open>\<open>int(s)\<close> for the text group 3 can capture, a non-empty run of digits.\<close>

definition py_int :: "string \<Rightarrow> exn + int" where
  "py_int s =
     (if s \<noteq> [] \<and> list_all is_digit s then Inr (int (digits_val s))
      else Inl (Exception (''invalid literal for int() with base 10: '' @ [CHR 0x27] @ s @ [CHR 0x27])))"

subsection \<open>\<open>run_benchmark\<close>\<close>

text \<open>
  The dictionary \<open>run_benchmark\<close> returns. Where Python has the int \<open>0\<close> under \<open>return\<close>
  and \<open>net\<close> of a failed trial, the record has the rational \<open>0\<close>.
\<close>

record outcome =
  return :: rat
  net :: rat
  trades :: int
  status :: string

text \<open>What \<open>subprocess.run\<close> returns when it does not raise.\<close>

record completed_process =
  returncode :: int
  stdout :: string
  stderr :: string

definition cmd :: "string \<Rightarrow> string \<Rightarrow> string \<Rightarrow> string \<Rightarrow> string list" where
  "cmd symbol start_date end_date strategy =
     [''cargo'', ''run'', ''--release'', ''--bin'', ''benchmark'', ''--'',
      ''--symbol'', symbol,
      ''--start'', start_date,
      ''--end'', end_date,
      ''--strategy'', strategy]"

text \<open>
  The lines after \<open>subprocess.run\<close> inside the \<open>try\<close>: the search, and on a match the
  three conversions in the order the dictionary display evaluates them.
\<close>

definition parse_output :: "string \<Rightarrow> exn + outcome" where
  "parse_output output =
     (case re_search output of
        None \<Rightarrow> Inr \<lparr>return = 0, net = 0, trades = 0, status = ''PARSE_ERROR''\<rparr>
      | Some (g1, g2, g3) \<Rightarrow>
          (case py_float g1 of
             Inl e \<Rightarrow> Inl e
           | Inr r \<Rightarrow>
               (case py_float g2 of
                  Inl e \<Rightarrow> Inl e
                | Inr n \<Rightarrow>
                    (case py_int g3 of
                       Inl e \<Rightarrow> Inl e
                     | Inr t \<Rightarrow> Inr \<lparr>return = r, net = n, trades = t, status = ''SUCCESS''\<rparr>))))"

definition try_body :: "(exn + completed_process) \<Rightarrow> exn + outcome" where
  "try_body proc =
     (case proc of
        Inl e \<Rightarrow> Inl e
      | Inr result \<Rightarrow> parse_output (stdout result @ stderr result))"

text \<open>
  The two handlers. \<open>except subprocess.TimeoutExpired\<close> comes first, \<open>except Exception\<close>
  takes every other exception the body can raise. A \<open>KeyError\<close> is an \<open>Exception\<close> too; its
  \<open>str\<close> is the \<open>repr\<close> of the key.
\<close>

fun handlers :: "exn \<Rightarrow> outcome" where
  "handlers TimeoutExpired = \<lparr>return = 0, net = 0, trades = 0, status = ''TIMEOUT''\<rparr>"
| "handlers (Exception e) = \<lparr>return = 0, net = 0, trades = 0, status = ''ERROR: '' @ e\<rparr>"
| "handlers (KeyError k) =
     \<lparr>return = 0, net = 0, trades = 0, status = ''ERROR: '' @ [CHR 0x27] @ k @ [CHR 0x27]\<rparr>"

text \<open>
  \<open>run_benchmark\<close>. The first argument stands for \<open>subprocess.run\<close> with
  \<open>capture_output=True, text=True, timeout=60\<close>: what running the command gives, a
  completed process or an exception.
\<close>

definition run_benchmark ::
  "(string list \<Rightarrow> exn + completed_process) \<Rightarrow> string \<Rightarrow> string \<Rightarrow> string \<Rightarrow> string \<Rightarrow> outcome" where
  "run_benchmark subprocess_run symbol start_date end_date strategy =
     (case try_body (subprocess_run (cmd symbol start_date end_date strategy)) of
        Inr d \<Rightarrow> d
      | Inl e \<Rightarrow> handlers e)"

text \<open>
  \<open>run_benchmark\<close> of validate_risk_filter.py: the same body, the strategy fixed to
  \<open>advanced\<close>.
\<close>

definition vrf_run_benchmark ::
  "(string list \<Rightarrow> exn + completed_process) \<Rightarrow> string \<Rightarrow> string \<Rightarrow> string \<Rightarrow> outcome" where
  "vrf_run_benchmark subprocess_run symbol start_date end_date =
     (case try_body (subprocess_run (cmd symbol start_date end_date ''advanced'')) of
        Inr d \<Rightarrow> d
      | Inl e \<Rightarrow> handlers e)"

subsection \<open>Configuration, trial records, the results table\<close>

definition cs_PERIODS :: "(string \<times> string \<times> string) list" where
  "cs_PERIODS =
     [(''Election_Rally'', ''2024-11-06'', ''2024-12-06''),
      (''Oct_2024'', ''2024-10-01'', ''2024-10-31''),
      (''Sep_2024'', ''2024-09-01'', ''2024-09-30'')]"

definition cs_SYMBOLS :: "string list" where
  "cs_SYMBOLS = [''AAPL'', ''NVDA'', ''TSLA'', ''MSFT'']"

definition cs_STRATEGIES :: "string list" where
  "cs_STRATEGIES = [''advanced'', ''regime_adaptive'']"

definition vrf_PERIODS :: "(string \<times> string \<times> string) list" where
  "vrf_PERIODS =
     [(''Election_Rally'', ''2024-11-06'', ''2024-12-06''),
      (''Oct_2024'', ''2024-10-01'', ''2024-10-31''),
      (''Sep_2024'', ''2024-09-01'', ''2024-09-30''),
      (''Aug_2024'', ''2024-08-01'', ''2024-08-31'')]"

definition vrf_SYMBOLS :: "string list" where
  "vrf_SYMBOLS = [''AAPL'', ''NVDA'', ''TSLA'', ''MSFT'', ''JPM'', ''GOOGL'', ''AMZN'', ''META'']"

text \<open>
  The dictionaries \<open>main\<close> collects: the keys of the outcome (\<open>**result\<close>) and the keys of
  the trial. compare_strategies.py adds \<open>strategy\<close>, validate_risk_filter.py adds
  \<open>start_date\<close> and \<open>end_date\<close>.
\<close>

record trial = outcome +
  period :: string
  symbol :: string

record cs_trial = trial +
  strategy :: string

record vrf_trial = trial +
  start_date :: string
  end_date :: string

definition cs_record :: "string \<Rightarrow> string \<Rightarrow> string \<Rightarrow> outcome \<Rightarrow> cs_trial" where
  "cs_record st pn sy result =
     \<lparr>return = return result, net = net result, trades = trades result, status = status result,
      period = pn, symbol = sy, strategy = st\<rparr>"

definition vrf_record :: "string \<Rightarrow> string \<Rightarrow> string \<Rightarrow> string \<Rightarrow> outcome \<Rightarrow> vrf_trial" where
  "vrf_record pn sy sd ed result =
     \<lparr>return = return result, net = net result, trades = trades result, status = status result,
      period = pn, symbol = sy, start_date = sd, end_date = ed\<rparr>"

text \<open>
  A CSV table: the header row and the data rows. A cell holds the Python value written;
  how \<open>csv\<close> renders it is left out.
\<close>

datatype cell = S string | F rat | I int

record table =
  header :: "string list"
  rows :: "cell list list"

definition cs_fieldnames :: "string list" where
  "cs_fieldnames = [''strategy'', ''period'', ''symbol'', ''return'', ''net'', ''trades'', ''status'']"

definition vrf_fieldnames :: "string list" where
  "vrf_fieldnames =
     [''period'', ''symbol'', ''start_date'', ''end_date'', ''return'', ''net'', ''trades'', ''status'']"

text \<open>\<open>DictWriter\<close> writes the values of a dictionary in the order of \<open>fieldnames\<close>.\<close>

definition cs_row :: "cs_trial \<Rightarrow> cell list" where
  "cs_row r = [S (strategy r), S (period r), S (symbol r), F (return r), F (net r), I (trades r), S (status r)]"

definition vrf_row :: "vrf_trial \<Rightarrow> cell list" where
  "vrf_row r =
     [S (period r), S (symbol r), S (start_date r), S (end_date r),
      F (return r), F (net r), I (trades r), S (status r)]"

definition cs_table :: "cs_trial list \<Rightarrow> table" where
  "cs_table all_results = \<lparr>header = cs_fieldnames, rows = map cs_row all_results\<rparr>"

definition vrf_table :: "vrf_trial list \<Rightarrow> table" where
  "vrf_table results = \<lparr>header = vrf_fieldnames, rows = map vrf_row results\<rparr>"

text \<open>
  The file system as far as the scripts touch it: the directories that exist and the
  regular files with the tables in them. \<open>RESULTS_DIR.mkdir(exist_ok=True)\<close> runs when
  the module is loaded: an existing directory is left alone, a regular file of that name
  makes it raise \<open>FileExistsError\<close>. \<open>open(path, 'w')\<close> raises when the path is a
  directory or the directory above it is missing, and replaces the file otherwise.
\<close>

record fs =
  dirs :: "string set"
  files :: "string \<rightharpoonup> table"

definition RESULTS_DIR :: string where
  "RESULTS_DIR = ''benchmark_results''"

definition mkdir_exist_ok :: "string \<Rightarrow> fs \<Rightarrow> exn + fs" where
  "mkdir_exist_ok d f =
     (if d \<in> dirs f then Inr f
      else if d \<in> dom (files f) then
        Inl (Exception (''[Errno 17] File exists: '' @ [CHR 0x27] @ d @ [CHR 0x27]))
      else Inr (f\<lparr>dirs := insert d (dirs f)\<rparr>))"

definition path_join :: "string \<Rightarrow> string \<Rightarrow> string" where
  "path_join d name = d @ ''/'' @ name"

definition write_table :: "string \<Rightarrow> string \<Rightarrow> table \<Rightarrow> fs \<Rightarrow> exn + fs" where
  "write_table d name t f =
     (if path_join d name \<in> dirs f then
        Inl (Exception (''[Errno 21] Is a directory: '' @ [CHR 0x27] @ path_join d name @ [CHR 0x27]))
      else if d \<notin> dirs f then
        Inl (Exception (''[Errno 2] No such file or directory: '' @ [CHR 0x27] @ path_join d name @ [CHR 0x27]))
      else Inr (f\<lparr>files := (files f)(path_join d name \<mapsto> t)\<rparr>))"

definition cs_results_file :: "string \<Rightarrow> string" where
  "cs_results_file TIMESTAMP = ''strategy_comparison_'' @ TIMESTAMP @ ''.csv''"

definition vrf_results_file :: "string \<Rightarrow> string" where
  "vrf_results_file TIMESTAMP = ''risk_filter_validation_'' @ TIMESTAMP @ ''.csv''"

subsection \<open>The trial loops\<close>

text \<open>
  The evaluator is outside the program and may answer differently each time it is run.
  \<open>run n\<close> is what \<open>subprocess.run\<close> does on the call that \<open>n\<close> calls of this run of the
  script came before; the loops count the calls.

  In the loops below \<open>st\<close> is the source's \<open>strategy\<close>, \<open>pn\<close> its \<open>period_name\<close>, \<open>sd\<close> and
  \<open>ed\<close> its \<open>start_date\<close> and \<open>end_date\<close>, \<open>sy\<close> its \<open>symbol\<close>. The progress lines
  the loops print are left out.
\<close>

type_synonym runner = "nat \<Rightarrow> string list \<Rightarrow> exn + completed_process"

type_synonym period_cfg = "string \<times> string \<times> string"

text \<open>compare_strategies.py: \<open>results\<close> is a dictionary from strategy to a list.\<close>

type_synonym cs_results = "string \<rightharpoonup> cs_trial list"

text \<open>\<open>results = {strategy: [] for strategy in STRATEGIES}\<close>\<close>

fun cs_init :: "string list \<Rightarrow> cs_results" where
  "cs_init [] = Map.empty"
| "cs_init (st # sts) = (cs_init sts)(st \<mapsto> [])"

text \<open>\<open>for symbol in SYMBOLS\<close>, with \<open>results[strategy].append(...)\<close>\<close>

fun cs_symbols_loop ::
  "runner \<Rightarrow> string \<Rightarrow> period_cfg \<Rightarrow> string list \<Rightarrow> cs_results \<times> nat \<Rightarrow> exn + cs_results \<times> nat" where
  "cs_symbols_loop run st p [] (results, n) = Inr (results, n)"
| "cs_symbols_loop run st (pn, sd, ed) (sy # sys) (results, n) =
     (let result = run_benchmark (run n) sy sd ed st
      in case results st of
           None \<Rightarrow> Inl (KeyError st)
         | Some l \<Rightarrow>
             cs_symbols_loop run st (pn, sd, ed) sys
               (results(st \<mapsto> l @ [cs_record st pn sy result]), Suc n))"

text \<open>\<open>for period_name, start_date, end_date in PERIODS\<close>\<close>

fun cs_periods_loop ::
  "runner \<Rightarrow> string \<Rightarrow> period_cfg list \<Rightarrow> string list \<Rightarrow> cs_results \<times> nat \<Rightarrow> exn + cs_results \<times> nat" where
  "cs_periods_loop run st [] SYMBOLS s = Inr s"
| "cs_periods_loop run st (p # ps) SYMBOLS s =
     (case cs_symbols_loop run st p SYMBOLS s of
        Inl e \<Rightarrow> Inl e
      | Inr s' \<Rightarrow> cs_periods_loop run st ps SYMBOLS s')"

text \<open>\<open>for strategy in STRATEGIES\<close>\<close>

fun cs_strategies_loop ::
  "runner \<Rightarrow> string list \<Rightarrow> period_cfg list \<Rightarrow> string list \<Rightarrow> cs_results \<times> nat \<Rightarrow> exn + cs_results \<times> nat" where
  "cs_strategies_loop run [] PERIODS SYMBOLS s = Inr s"
| "cs_strategies_loop run (st # sts) PERIODS SYMBOLS s =
     (case cs_periods_loop run st PERIODS SYMBOLS s of
        Inl e \<Rightarrow> Inl e
      | Inr s' \<Rightarrow> cs_strategies_loop run sts PERIODS SYMBOLS s')"

definition cs_run_trials ::
  "runner \<Rightarrow> string list \<Rightarrow> period_cfg list \<Rightarrow> string list \<Rightarrow> exn + cs_results" where
  "cs_run_trials run STRATEGIES PERIODS SYMBOLS =
     (case cs_strategies_loop run STRATEGIES PERIODS SYMBOLS (cs_init STRATEGIES, 0) of
        Inl e \<Rightarrow> Inl e
      | Inr (results, n) \<Rightarrow> Inr results)"

text \<open>\<open>for strategy in STRATEGIES: all_results.extend(results[strategy])\<close>\<close>

fun cs_all_results :: "string list \<Rightarrow> cs_results \<Rightarrow> exn + cs_trial list" where
  "cs_all_results [] results = Inr []"
| "cs_all_results (st # sts) results =
     (case results st of
        None \<Rightarrow> Inl (KeyError st)
      | Some l \<Rightarrow>
          (case cs_all_results sts results of
             Inl e \<Rightarrow> Inl e
           | Inr rest \<Rightarrow> Inr (l @ rest)))"

text \<open>validate_risk_filter.py: \<open>results\<close> is one list.\<close>

fun vrf_symbols_loop ::
  "runner \<Rightarrow> period_cfg \<Rightarrow> string list \<Rightarrow> vrf_trial list \<times> nat \<Rightarrow> vrf_trial list \<times> nat" where
  "vrf_symbols_loop run p [] (results, n) = (results, n)"
| "vrf_symbols_loop run (pn, sd, ed) (sy # sys) (results, n) =
     (let result = vrf_run_benchmark (run n) sy sd ed
      in vrf_symbols_loop run (pn, sd, ed) sys (results @ [vrf_record pn sy sd ed result], Suc n))"

fun vrf_periods_loop ::
  "runner \<Rightarrow> period_cfg list \<Rightarrow> string list \<Rightarrow> vrf_trial list \<times> nat \<Rightarrow> vrf_trial list \<times> nat" where
  "vrf_periods_loop run [] SYMBOLS s = s"
| "vrf_periods_loop run (p # ps) SYMBOLS s =
     vrf_periods_loop run ps SYMBOLS (vrf_symbols_loop run p SYMBOLS s)"

definition vrf_run_trials :: "runner \<Rightarrow> period_cfg list \<Rightarrow> string list \<Rightarrow> vrf_trial list" where
  "vrf_run_trials run PERIODS SYMBOLS = fst (vrf_periods_loop run PERIODS SYMBOLS ([], 0))"

subsection \<open>The summaries\<close>

text \<open>
  What the scripts print after the trials, one value per printed line; the number
  formats, the blank lines and the rules of \<open>=\<close> signs are left out. \<open>StrategyName\<close>
  is printed in upper case, \<open>WinRate\<close> is the percentage printed.
\<close>

datatype line =
    Heading string
  | StrategyName string
  | TestsCompleted nat nat
  | AvgReturn rat
  | TotalPnl rat
  | WinRate rat
  | TotalTrades int
  | AvgTrades rat
  | NoSuccessfulTests
  | PeriodName string
  | PeriodLine string rat rat
  | ResultsSaved string
  | FullResults string

text \<open>
  Printing code gives the lines it printed and, when an exception ended it, the
  exception: the lines printed before it stay printed. \<open>then_print a b\<close> is \<open>a\<close> followed
  by \<open>b\<close>.
\<close>

type_synonym printed = "line list \<times> exn option"

definition then_print :: "printed \<Rightarrow> printed \<Rightarrow> printed" where
  "then_print a b = (case snd a of Some e \<Rightarrow> a | None \<Rightarrow> (fst a @ fst b, snd b))"

text \<open>
  Python's \<open>/\<close>. With a float on the left and the length of a list on the right it
  raises on a zero divisor only; a list has fewer than \<open>2 ^ 63\<close> elements, so its length
  becomes a float without overflow.
\<close>

definition true_div :: "rat \<Rightarrow> rat \<Rightarrow> exn + rat" where
  "true_div a b = (if b = 0 then Inl (Exception ''float division by zero'') else Inr (a / b))"

text \<open>
  With an int on both sides \<open>/\<close> raises \<open>ZeroDivisionError\<close> on a zero divisor and
  \<open>OverflowError\<close> when the quotient, rounded to a double, is beyond the largest double:
  from \<open>2 ^ 1024 - 2 ^ 970\<close> on, half a unit in the last place above it.
\<close>

definition float_overflow :: rat where
  "float_overflow = 2 ^ 1024 - 2 ^ 970"

definition int_true_div :: "int \<Rightarrow> int \<Rightarrow> exn + rat" where
  "int_true_div a b =
     (if b = 0 then Inl (Exception ''division by zero'')
      else if float_overflow \<le> \<bar>of_int a / of_int b\<bar> then
        Inl (Exception ''integer division result too large for a float'')
      else Inr (of_int a / of_int b))"

definition successful_of :: "('a outcome_scheme) list \<Rightarrow> ('a outcome_scheme) list" where
  "successful_of rs = filter (\<lambda>r. status r = ''SUCCESS'') rs"

definition winners_of :: "('a outcome_scheme) list \<Rightarrow> nat" where
  "winners_of successful = length (filter (\<lambda>r. return r > 0) successful)"

text \<open>
  compare_strategies.py, the body of the loop of COMPARISON SUMMARY for one strategy.
  The average return is computed before anything is printed; the win rate and the
  average number of trades are computed inside the \<open>print\<close> of their line.
\<close>

definition cs_strategy_summary :: "string \<Rightarrow> cs_trial list \<Rightarrow> printed" where
  "cs_strategy_summary st rs =
     (let successful = successful_of rs in
      if successful \<noteq> [] then
        (case true_div (sum_list (map return successful)) (of_nat (length successful)) of
           Inl e \<Rightarrow> ([], Some e)
         | Inr avg_return \<Rightarrow>
             (let total_profit = sum_list (map net successful);
                  total_trades = sum_list (map trades successful);
                  winners = winners_of successful
              in case int_true_div (int winners) (int (length successful)) of
                   Inl e \<Rightarrow>
                     ([StrategyName st, AvgReturn avg_return, TotalPnl total_profit], Some e)
                 | Inr wr \<Rightarrow>
                     (case int_true_div total_trades (int (length successful)) of
                        Inl e \<Rightarrow>
                          ([StrategyName st, AvgReturn avg_return, TotalPnl total_profit,
                            WinRate (wr * 100), TotalTrades total_trades], Some e)
                      | Inr avg_trades \<Rightarrow>
                          ([StrategyName st, AvgReturn avg_return, TotalPnl total_profit,
                            WinRate (wr * 100), TotalTrades total_trades, AvgTrades avg_trades],
                           None))))
      else ([], None))"

fun cs_summary :: "string list \<Rightarrow> cs_results \<Rightarrow> printed" where
  "cs_summary [] results = ([], None)"
| "cs_summary (st # sts) results =
     (case results st of
        None \<Rightarrow> ([], Some (KeyError st))
      | Some rs \<Rightarrow> then_print (cs_strategy_summary st rs) (cs_summary sts results))"

text \<open>PERIOD BREAKDOWN: the line of one strategy under one period.\<close>

definition cs_period_line :: "string \<Rightarrow> string \<Rightarrow> cs_trial list \<Rightarrow> printed" where
  "cs_period_line pn st rs =
     (let period_results = filter (\<lambda>r. period r = pn \<and> status r = ''SUCCESS'') rs in
      if period_results \<noteq> [] then
        (let total = sum_list (map net period_results)
         in case true_div (sum_list (map return period_results)) (of_nat (length period_results)) of
              Inl e \<Rightarrow> ([], Some e)
            | Inr avg \<Rightarrow> ([PeriodLine st total avg], None))
      else ([], None))"

fun cs_period_strategies :: "string \<Rightarrow> string list \<Rightarrow> cs_results \<Rightarrow> printed" where
  "cs_period_strategies pn [] results = ([], None)"
| "cs_period_strategies pn (st # sts) results =
     (case results st of
        None \<Rightarrow> ([], Some (KeyError st))
      | Some rs \<Rightarrow> then_print (cs_period_line pn st rs) (cs_period_strategies pn sts results))"

fun cs_breakdown :: "period_cfg list \<Rightarrow> string list \<Rightarrow> cs_results \<Rightarrow> printed" where
  "cs_breakdown [] STRATEGIES results = ([], None)"
| "cs_breakdown ((pn, sd, ed) # ps) STRATEGIES results =
     then_print ([PeriodName pn], None)
       (then_print (cs_period_strategies pn STRATEGIES results)
          (cs_breakdown ps STRATEGIES results))"

text \<open>
  validate_risk_filter.py, the summary after the table is written. The sums are
  computed first; each quotient is computed inside the \<open>print\<close> of its line.
\<close>

definition vrf_summary :: "nat \<Rightarrow> vrf_trial list \<Rightarrow> printed" where
  "vrf_summary total_tests results =
     (let successful = successful_of results in
      if successful \<noteq> [] then
        (let total_return = sum_list (map return successful);
             total_profit = sum_list (map net successful);
             total_trades = sum_list (map trades successful);
             winners = winners_of successful;
             l0 = [Heading ''Summary Statistics:'', TestsCompleted (length successful) total_tests]
         in case true_div total_return (of_nat (length successful)) of
              Inl e \<Rightarrow> (l0, Some e)
            | Inr avg_return \<Rightarrow>
                (case int_true_div (int winners) (int (length successful)) of
                   Inl e \<Rightarrow> (l0 @ [AvgReturn avg_return, TotalPnl total_profit], Some e)
                 | Inr wr \<Rightarrow>
                     (case int_true_div total_trades (int (length successful)) of
                        Inl e \<Rightarrow>
                          (l0 @ [AvgReturn avg_return, TotalPnl total_profit,
                                 WinRate (wr * 100), TotalTrades total_trades], Some e)
                      | Inr avg_trades \<Rightarrow>
                          (l0 @ [AvgReturn avg_return, TotalPnl total_profit,
                                 WinRate (wr * 100), TotalTrades total_trades, AvgTrades avg_trades],
                           None))))
      else ([NoSuccessfulTests], None))"

subsection \<open>\<open>main\<close>\<close>

text \<open>
  Each script from its start: the directory, the trials, the table, the summary. The
  result is the file system afterwards, the lines printed after the trials, and the
  exception that ended the script, if one did.
\<close>

definition cs_main ::
  "runner \<Rightarrow> string \<Rightarrow> fs \<Rightarrow> string list \<Rightarrow> period_cfg list \<Rightarrow> string list \<Rightarrow> fs \<times> printed" where
  "cs_main run TIMESTAMP f0 STRATEGIES PERIODS SYMBOLS =
     (case mkdir_exist_ok RESULTS_DIR f0 of
        Inl e \<Rightarrow> (f0, [], Some e)
      | Inr f1 \<Rightarrow>
          (case cs_run_trials run STRATEGIES PERIODS SYMBOLS of
             Inl e \<Rightarrow> (f1, [], Some e)
           | Inr results \<Rightarrow>
               (case cs_all_results STRATEGIES results of
                  Inl e \<Rightarrow> (f1, [], Some e)
                | Inr all_results \<Rightarrow>
                    (case write_table RESULTS_DIR (cs_results_file TIMESTAMP) (cs_table all_results) f1 of
                       Inl e \<Rightarrow> (f1, [], Some e)
                     | Inr f2 \<Rightarrow>
                         (f2,
                          then_print ([Heading ''COMPARISON SUMMARY''], None)
                            (then_print (cs_summary STRATEGIES results)
                               (then_print ([Heading ''PERIOD BREAKDOWN''], None)
                                  (then_print (cs_breakdown PERIODS STRATEGIES results)
                                     ([FullResults (path_join RESULTS_DIR (cs_results_file TIMESTAMP))],
                                      None)))))))))"

definition vrf_main ::
  "runner \<Rightarrow> string \<Rightarrow> fs \<Rightarrow> period_cfg list \<Rightarrow> string list \<Rightarrow> fs \<times> printed" where
  "vrf_main run TIMESTAMP f0 PERIODS SYMBOLS =
     (case mkdir_exist_ok RESULTS_DIR f0 of
        Inl e \<Rightarrow> (f0, [], Some e)
      | Inr f1 \<Rightarrow>
          (let total_tests = length PERIODS * length SYMBOLS;
               results = vrf_run_trials run PERIODS SYMBOLS
           in case write_table RESULTS_DIR (vrf_results_file TIMESTAMP) (vrf_table results) f1 of
                Inl e \<Rightarrow> (f1, [], Some e)
              | Inr f2 \<Rightarrow>
                  (f2,
                   then_print
                     ([Heading ''Benchmark Complete!'',
                       ResultsSaved (path_join RESULTS_DIR (vrf_results_file TIMESTAMP))], None)
                     (then_print (vrf_summary total_tests results)
                        ([FullResults (path_join RESULTS_DIR (vrf_results_file TIMESTAMP))], None)))))"

subsection \<open>The trial matrix of the specification\<close>

text \<open>The trial matrix as the specification states it: the cross product of the three
  lists, strategy outermost, then periods, symbols innermost.\<close>

definition trial_matrix :: "string list \<Rightarrow> period_cfg list \<Rightarrow> string list \<Rightarrow> (string \<times> period_cfg \<times> string) list" where
  "trial_matrix STRATEGIES PERIODS SYMBOLS =
     concat (map (\<lambda>st. concat (map (\<lambda>p. map (\<lambda>sy. (st, p, sy)) SYMBOLS) PERIODS)) STRATEGIES)"

text \<open>The matrix when the strategy is fixed: periods outer, symbols inner.\<close>

definition period_matrix :: "period_cfg list \<Rightarrow> string list \<Rightarrow> (period_cfg \<times> string) list" where
  "period_matrix PERIODS SYMBOLS = concat (map (\<lambda>p. map (\<lambda>sy. (p, sy)) SYMBOLS) PERIODS)"

text \<open>The record of one trial of compare_strategies.py: \<open>n\<close> is the number of the call, the
  rest says which trial it is.\<close>

definition cs_trial_record :: "runner \<Rightarrow> nat \<times> string \<times> period_cfg \<times> string \<Rightarrow> cs_trial" where
  "cs_trial_record run = (\<lambda>(n, st, (pn, sd, ed), sy). cs_record st pn sy (run_benchmark (run n) sy sd ed st))"

text \<open>The record of one trial of validate_risk_filter.py.\<close>

definition vrf_trial_record :: "runner \<Rightarrow> nat \<times> period_cfg \<times> string \<Rightarrow> vrf_trial" where
  "vrf_trial_record run = (\<lambda>(n, (pn, sd, ed), sy). vrf_record pn sy sd ed (vrf_run_benchmark (run n) sy sd ed))"

text \<open>The numbered trials of strategy \<open>k\<close>.\<close>

definition strategy_is :: "string \<Rightarrow> nat \<times> string \<times> period_cfg \<times> string \<Rightarrow> bool" where
  "strategy_is k = (\<lambda>(n, st, p, sy). st = k)"

subsection \<open>An evaluator for the end-to-end scenario\<close>

text \<open>
  The scenario of the specification: the first call prints a report, every later call
  runs into the deadline.
\<close>

definition stub_run :: runner where
  "stub_run n c =
     (if n = 0 then Inr \<lparr>returncode = 0, stdout = ''Return: 2.00% ... Net: $10.00 ... Trades: 3'', stderr = []\<rparr>
      else Inl TimeoutExpired)"

section \<open>Properties\<close>

subsection \<open>The pieces of the matcher\<close>

lemma lit_no_prefix: "\<not> prefix l s \<Longrightarrow> lit l k s = None"
  by (simp add: lit_def)

lemma greedy_more_stop: "s = [] \<or> \<not> P (hd s) \<Longrightarrow> greedy_more P k acc s = k acc s"
  by (cases s) auto

lemma lazy_star_here: "k s = Some r \<Longrightarrow> lazy_star P k s = Some r"
  by (cases s) simp_all

lemma lazy_star_skip:
  "list_all P a \<Longrightarrow> (\<And>v. suffix v a \<Longrightarrow> v \<noteq> [] \<Longrightarrow> k (v @ t) = None) \<Longrightarrow>
   lazy_star P k (a @ t) = lazy_star P k t"
proof (induction a)
  case Nil
  then show ?case by simp
next
  case (Cons c a)
  have "k ((c # a) @ t) = None" using Cons.prems(2)[of "c # a"] by simp
  moreover have "lazy_star P k (a @ t) = lazy_star P k t"
    using Cons.prems by (intro Cons.IH) (simp_all add: suffix_Cons)
  ultimately show ?case using Cons.prems(1) by simp
qed

lemma suffix_prefix_sublist: "suffix v a \<Longrightarrow> prefix l v \<Longrightarrow> sublist l a"
  by (auto simp: suffix_def prefix_def sublist_def)

lemma Net_across: "prefix ''Net:'' (v @ ''Net:'' @ t) \<Longrightarrow> v \<noteq> [] \<Longrightarrow> prefix ''Net:'' v"
  by (auto simp: prefix_append Cons_eq_append_conv)

lemma Trades_across: "prefix ''Trades:'' (v @ ''Trades:'' @ t) \<Longrightarrow> v \<noteq> [] \<Longrightarrow> prefix ''Trades:'' v"
  by (auto simp: prefix_append Cons_eq_append_conv)

lemma Return_across: "prefix ''Return:'' (v @ ''Return:'' @ t) \<Longrightarrow> v \<noteq> [] \<Longrightarrow> prefix ''Return:'' v"
  by (auto simp: prefix_append Cons_eq_append_conv)

lemma trades_field_7:
  assumes "post = [] \<or> \<not> is_digit (hd post)"
  shows "trades_field g1 g2 (''Trades: 7'' @ post) = Some (g1, g2, ''7'')"
  using assms
  by (cases post) (simp_all add: trades_field_def lit_def is_space_def is_digit_def)

lemma trades_field_no_prefix: "\<not> prefix ''Trades:'' s \<Longrightarrow> trades_field g1 g2 s = None"
  by (simp add: trades_field_def lit_no_prefix)

lemma net_field_no_prefix: "\<not> prefix ''Net:'' s \<Longrightarrow> net_field g1 s = None"
  by (simp add: net_field_def lit_no_prefix)

lemma match_here_no_prefix: "\<not> prefix ''Return:'' s \<Longrightarrow> match_here s = None"
  by (simp add: match_here_def lit_no_prefix)

lemma list_all_is_dot: "CHR 0x0A \<notin> set a \<Longrightarrow> list_all is_dot a"
  by (auto simp: list_all_iff is_dot_def)

lemma after_net:
  assumes "CHR 0x0A \<notin> set b" "\<not> sublist ''Trades:'' b" "post = [] \<or> \<not> is_digit (hd post)"
  shows "lazy_star is_dot (trades_field g1 g2) (b @ ''Trades: 7'' @ post) = Some (g1, g2, ''7'')"
proof -
  have "lazy_star is_dot (trades_field g1 g2) (b @ ''Trades: 7'' @ post)
        = lazy_star is_dot (trades_field g1 g2) (''Trades: 7'' @ post)"
  proof (rule lazy_star_skip[OF list_all_is_dot[OF assms(1)]])
    fix v assume v: "suffix v b" "v \<noteq> []"
    have "\<not> prefix ''Trades:'' (v @ ''Trades: 7'' @ post)"
    proof
      assume "prefix ''Trades:'' (v @ ''Trades: 7'' @ post)"
      then have "prefix ''Trades:'' (v @ ''Trades:'' @ ('' 7'' @ post))" by simp
      then have "prefix ''Trades:'' v" using v(2) by (rule Trades_across)
      with v(1) assms(2) show False by (blast intro: suffix_prefix_sublist)
    qed
    then show "trades_field g1 g2 (v @ ''Trades: 7'' @ post) = None"
      by (rule trades_field_no_prefix)
  qed
  also have "\<dots> = Some (g1, g2, ''7'')"
    by (intro lazy_star_here trades_field_7 assms(3))
  finally show ?thesis .
qed

lemma net_field_42:
  assumes "CHR 0x0A \<notin> set b" "\<not> sublist ''Trades:'' b" "b = [] \<or> \<not> is_num_char (hd b)"
    "post = [] \<or> \<not> is_digit (hd post)"
  shows "net_field g1 (''Net: $42.10'' @ b @ ''Trades: 7'' @ post) = Some (g1, ''42.10'', ''7'')"
proof -
  let ?K = "\<lambda>g2. lazy_star is_dot (trades_field g1 g2)"
  let ?t = "b @ ''Trades: 7'' @ post"
  have "?t = [] \<or> \<not> is_num_char (hd ?t)"
    using assms(3) by (cases b) (simp_all add: is_num_char_def is_digit_def)
  then have "greedy_more is_num_char ?K ''42.10'' ?t = ?K ''42.10'' ?t"
    by (rule greedy_more_stop)
  also have "\<dots> = Some (g1, ''42.10'', ''7'')"
    by (rule after_net[OF assms(1,2,4)])
  finally have stop: "greedy_more is_num_char ?K ''42.10'' ?t = Some (g1, ''42.10'', ''7'')" .
  have "net_field g1 (''Net: $42.10'' @ ?t) = greedy_more is_num_char ?K ''42.10'' ?t"
    using stop by (simp add: net_field_def lit_def is_space_def is_num_char_def is_digit_def)
  with stop show ?thesis by simp
qed

lemma after_return:
  assumes "CHR 0x0A \<notin> set a" "\<not> sublist ''Net:'' a"
    "CHR 0x0A \<notin> set b" "\<not> sublist ''Trades:'' b" "b = [] \<or> \<not> is_num_char (hd b)"
    "post = [] \<or> \<not> is_digit (hd post)"
  shows "lazy_star is_dot (net_field g1) (a @ ''Net: $42.10'' @ b @ ''Trades: 7'' @ post)
         = Some (g1, ''42.10'', ''7'')"
proof -
  let ?t = "''Net: $42.10'' @ b @ ''Trades: 7'' @ post"
  have "lazy_star is_dot (net_field g1) (a @ ?t) = lazy_star is_dot (net_field g1) ?t"
  proof (rule lazy_star_skip[OF list_all_is_dot[OF assms(1)]])
    fix v assume v: "suffix v a" "v \<noteq> []"
    have "\<not> prefix ''Net:'' (v @ ?t)"
    proof
      assume "prefix ''Net:'' (v @ ?t)"
      then have "prefix ''Net:'' (v @ ''Net:'' @ ('' $42.10'' @ b @ ''Trades: 7'' @ post))" by simp
      then have "prefix ''Net:'' v" using v(2) by (rule Net_across)
      with v(1) assms(2) show False by (blast intro: suffix_prefix_sublist)
    qed
    then show "net_field g1 (v @ ?t) = None"
      by (rule net_field_no_prefix)
  qed
  also have "\<dots> = Some (g1, ''42.10'', ''7'')"
    by (intro lazy_star_here net_field_42 assms)
  finally show ?thesis .
qed

lemma match_here_321:
  assumes "CHR 0x0A \<notin> set a" "\<not> sublist ''Net:'' a"
    "CHR 0x0A \<notin> set b" "\<not> sublist ''Trades:'' b" "b = [] \<or> \<not> is_num_char (hd b)"
    "post = [] \<or> \<not> is_digit (hd post)"
  shows "match_here (''Return: 3.21%'' @ a @ ''Net: $42.10'' @ b @ ''Trades: 7'' @ post)
         = Some (''3.21'', ''42.10'', ''7'')"
proof -
  let ?t = "a @ ''Net: $42.10'' @ b @ ''Trades: 7'' @ post"
  have rest: "lazy_star is_dot (net_field ''3.21'') ?t = Some (''3.21'', ''42.10'', ''7'')"
    by (rule after_return[OF assms])
  have "match_here (''Return: 3.21%'' @ ?t) = lazy_star is_dot (net_field ''3.21'') ?t"
    using rest by (simp add: match_here_def lit_def is_space_def is_num_char_def is_digit_def)
  with rest show ?thesis by simp
qed

lemma re_search_append_skip:
  "(\<And>v. suffix v pre \<Longrightarrow> v \<noteq> [] \<Longrightarrow> match_here (v @ s) = None) \<Longrightarrow>
   re_search (pre @ s) = re_search s"
proof (induction pre)
  case Nil
  then show ?case by simp
next
  case (Cons c pre)
  have "match_here ((c # pre) @ s) = None"
    using Cons.prems[of "c # pre"] by simp
  moreover have "re_search (pre @ s) = re_search s"
    by (rule Cons.IH) (simp add: Cons.prems suffix_Cons)
  ultimately show ?case by simp
qed

lemma re_search_match_here: "match_here s = Some g \<Longrightarrow> re_search s = Some g"
  by (cases s) simp_all

lemma re_search_321:
  assumes "\<not> sublist ''Return:'' pre"
    "CHR 0x0A \<notin> set a" "\<not> sublist ''Net:'' a"
    "CHR 0x0A \<notin> set b" "\<not> sublist ''Trades:'' b" "b = [] \<or> \<not> is_num_char (hd b)"
    "post = [] \<or> \<not> is_digit (hd post)"
  shows "re_search (pre @ ''Return: 3.21%'' @ a @ ''Net: $42.10'' @ b @ ''Trades: 7'' @ post)
         = Some (''3.21'', ''42.10'', ''7'')"
proof -
  let ?t = "''Return: 3.21%'' @ a @ ''Net: $42.10'' @ b @ ''Trades: 7'' @ post"
  have "re_search (pre @ ?t) = re_search ?t"
  proof (rule re_search_append_skip)
    fix v assume v: "suffix v pre" "v \<noteq> []"
    have "\<not> prefix ''Return:'' (v @ ?t)"
    proof
      assume "prefix ''Return:'' (v @ ?t)"
      then have "prefix ''Return:'' (v @ ''Return:'' @ ('' 3.21%'' @ a @ ''Net: $42.10'' @ b @ ''Trades: 7'' @ post))"
        by simp
      then have "prefix ''Return:'' v" using v(2) by (rule Return_across)
      with v(1) assms(1) show False by (blast intro: suffix_prefix_sublist)
    qed
    then show "match_here (v @ ?t) = None" by (rule match_here_no_prefix)
  qed
  also have "\<dots> = Some (''3.21'', ''42.10'', ''7'')"
    by (intro re_search_match_here match_here_321 assms)
  finally show ?thesis .
qed

lemma py_float_321: "py_float ''3.21'' = Inr (321 / 100)"
  by (simp add: py_float_def float_body_ok_def float_body_val_def digits_val_def digit_val_def is_digit_def)

lemma py_float_4210: "py_float ''42.10'' = Inr (421 / 10)"
  by (simp add: py_float_def float_body_ok_def float_body_val_def digits_val_def digit_val_def is_digit_def)

lemma py_int_7: "py_int ''7'' = Inr 7"
  by (simp add: py_int_def digits_val_def digit_val_def is_digit_def)

lemma parse_output_raises_only_Exception:
  "(\<exists>d. parse_output output = Inr d) \<or> (\<exists>msg. parse_output output = Inl (Exception msg))"
  by (auto simp: parse_output_def py_float_def py_int_def float_error_def
           split: option.splits sum.splits list.splits if_splits prod.splits)

lemma run_benchmark_completed:
  "subprocess_run (cmd sy sd ed st) = Inr p \<Longrightarrow>
   run_benchmark subprocess_run sy sd ed st =
     (case parse_output (stdout p @ stderr p) of Inr d \<Rightarrow> d | Inl e \<Rightarrow> handlers e)"
  by (simp add: run_benchmark_def try_body_def)

lemma vrf_run_benchmark_completed:
  "subprocess_run (cmd sy sd ed ''advanced'') = Inr p \<Longrightarrow>
   vrf_run_benchmark subprocess_run sy sd ed =
     (case parse_output (stdout p @ stderr p) of Inr d \<Rightarrow> d | Inl e \<Rightarrow> handlers e)"
  by (simp add: vrf_run_benchmark_def try_body_def)

lemma py_float_Inl: "py_float g = Inl e \<Longrightarrow> e = float_error g"
  by (auto simp: py_float_def split: list.splits if_splits)

lemma re_search_iff:
  "re_search s = Some g \<longleftrightarrow>
   (\<exists>i\<le>length s. match_here (drop i s) = Some g \<and> (\<forall>j<i. match_here (drop j s) = None))"
proof (induction s)
  case Nil
  then show ?case by simp
next
  case (Cons c cs)
  show ?case
  proof (cases "match_here (c # cs)")
    case (Some h)
    have "(\<exists>i\<le>length (c # cs). match_here (drop i (c # cs)) = Some g \<and> (\<forall>j<i. match_here (drop j (c # cs)) = None)) \<longleftrightarrow> h = g"
    proof
      assume "\<exists>i\<le>length (c # cs). match_here (drop i (c # cs)) = Some g \<and> (\<forall>j<i. match_here (drop j (c # cs)) = None)"
      then obtain i where i: "match_here (drop i (c # cs)) = Some g" "\<forall>j<i. match_here (drop j (c # cs)) = None"
        by blast
      have "i = 0"
      proof (rule ccontr)
        assume "i \<noteq> 0"
        then have "match_here (drop 0 (c # cs)) = None" using i(2) by blast
        with Some show False by simp
      qed
      with i(1) Some show "h = g" by simp
    next
      assume "h = g"
      with Some have "match_here (drop 0 (c # cs)) = Some g" by simp
      then show "\<exists>i\<le>length (c # cs). match_here (drop i (c # cs)) = Some g \<and> (\<forall>j<i. match_here (drop j (c # cs)) = None)"
        by blast
    qed
    with Some show ?thesis by simp
  next
    case None
    have "(\<exists>i\<le>length (c # cs). match_here (drop i (c # cs)) = Some g \<and> (\<forall>j<i. match_here (drop j (c # cs)) = None))
      \<longleftrightarrow> (\<exists>i\<le>length cs. match_here (drop i cs) = Some g \<and> (\<forall>j<i. match_here (drop j cs) = None))"
      (is "?L \<longleftrightarrow> ?R")
    proof
      assume ?L
      then obtain i where i: "i \<le> length (c # cs)" "match_here (drop i (c # cs)) = Some g"
        "\<forall>j<i. match_here (drop j (c # cs)) = None" by blast
      from i(2) None obtain i' where i': "i = Suc i'" by (cases i) auto
      have "\<forall>j<i'. match_here (drop j cs) = None"
      proof (intro allI impI)
        fix j assume "j < i'"
        then have "Suc j < i" using i' by simp
        then have "match_here (drop (Suc j) (c # cs)) = None" using i(3) by blast
        then show "match_here (drop j cs) = None" by simp
      qed
      with i i' show ?R by auto
    next
      assume ?R
      then obtain i where i: "i \<le> length cs" "match_here (drop i cs) = Some g"
        "\<forall>j<i. match_here (drop j cs) = None" by blast
      have "\<forall>j<Suc i. match_here (drop j (c # cs)) = None"
      proof (intro allI impI)
        fix j assume "j < Suc i"
        show "match_here (drop j (c # cs)) = None"
        proof (cases j)
          case 0 then show ?thesis using None by simp
        next
          case (Suc j') then show ?thesis using i(3) \<open>j < Suc i\<close> by simp
        qed
      qed
      with i show ?L by (intro exI[of _ "Suc i"]) simp
    qed
    with None Cons.IH show ?thesis by simp
  qed
qed

subsection \<open>The loops and the summaries\<close>

lemma cs_symbols_loop_eq:
  "results st = Some l \<Longrightarrow>
   cs_symbols_loop run st p sys (results, n) =
     Inr (results(st \<mapsto> l @ map (cs_trial_record run) (List.enumerate n (map (\<lambda>sy. (st, p, sy)) sys))),
          n + length sys)"
proof (induction sys arbitrary: results l n)
  case Nil
  then show ?case by (cases p) (simp add: fun_upd_idem)
next
  case (Cons sy sys)
  obtain pn sd ed where p: "p = (pn, sd, ed)" by (cases p) auto
  let ?r = "cs_record st pn sy (run_benchmark (run n) sy sd ed st)"
  have "cs_symbols_loop run st p sys (results(st \<mapsto> l @ [?r]), Suc n) =
     Inr ((results(st \<mapsto> l @ [?r]))(st \<mapsto> (l @ [?r]) @ map (cs_trial_record run)
            (List.enumerate (Suc n) (map (\<lambda>sy. (st, p, sy)) sys))), Suc n + length sys)"
    by (rule Cons.IH) simp
  then show ?case
    using Cons.prems by (auto simp: p cs_trial_record_def intro!: ext)
qed

lemma cs_periods_loop_eq:
  "results st = Some l \<Longrightarrow>
   cs_periods_loop run st ps sys (results, n) =
     Inr (results(st \<mapsto> l @ map (cs_trial_record run)
            (List.enumerate n (concat (map (\<lambda>p. map (\<lambda>sy. (st, p, sy)) sys) ps)))),
          n + length ps * length sys)"
proof (induction ps arbitrary: results l n)
  case Nil
  then show ?case by (simp add: fun_upd_idem)
next
  case (Cons p ps)
  let ?A = "map (cs_trial_record run) (List.enumerate n (map (\<lambda>sy. (st, p, sy)) sys))"
  have 1: "cs_symbols_loop run st p sys (results, n) = Inr (results(st \<mapsto> l @ ?A), n + length sys)"
    using Cons.prems by (rule cs_symbols_loop_eq)
  have 2: "cs_periods_loop run st ps sys (results(st \<mapsto> l @ ?A), n + length sys) =
     Inr ((results(st \<mapsto> l @ ?A))(st \<mapsto> (l @ ?A) @ map (cs_trial_record run)
            (List.enumerate (n + length sys) (concat (map (\<lambda>p. map (\<lambda>sy. (st, p, sy)) sys) ps)))),
          (n + length sys) + length ps * length sys)"
    by (rule Cons.IH) simp
  show ?case
    by (auto simp: 1 2 enumerate_append_eq add.assoc intro!: ext)
qed

lemma filter_strategy_block:
  "filter (strategy_is k) (List.enumerate n (concat (map (\<lambda>p. map (\<lambda>sy. (st, p, sy)) sys) ps)))
   = (if k = st then List.enumerate n (concat (map (\<lambda>p. map (\<lambda>sy. (st, p, sy)) sys) ps)) else [])"
proof -
  have "\<forall>x \<in> set (List.enumerate n (concat (map (\<lambda>p. map (\<lambda>sy. (st, p, sy)) sys) ps))).
          strategy_is k x \<longleftrightarrow> k = st"
    by (auto simp: strategy_is_def enumerate_eq_zip dest!: set_zip_rightD)
  then show ?thesis
    by (auto simp: filter_empty_conv filter_id_conv)
qed

lemma trial_matrix_Cons:
  "trial_matrix (st # sts) ps sys
   = concat (map (\<lambda>p. map (\<lambda>sy. (st, p, sy)) sys) ps) @ trial_matrix sts ps sys"
  by (simp add: trial_matrix_def)

lemma length_block: "length (concat (map (\<lambda>p. map (\<lambda>sy. (st, p, sy)) sys) ps)) = length ps * length sys"
  by (induction ps) simp_all

lemma length_trial_matrix: "length (trial_matrix sts ps sys) = length sts * length ps * length sys"
  by (induction sts) (simp_all add: trial_matrix_Cons length_block trial_matrix_def[of "[]"] add_mult_distrib)

lemma cs_strategies_loop_eq:
  "set sts \<subseteq> dom results \<Longrightarrow>
   cs_strategies_loop run sts ps sys (results, n) =
     Inr (\<lambda>k. map_option (\<lambda>l. l @ map (cs_trial_record run)
                 (filter (strategy_is k) (List.enumerate n (trial_matrix sts ps sys)))) (results k),
          n + length sts * length ps * length sys)"
proof (induction sts arbitrary: results n)
  case Nil
  then show ?case by (simp add: trial_matrix_def option.map_ident)
next
  case (Cons st sts)
  let ?B = "concat (map (\<lambda>p. map (\<lambda>sy. (st, p, sy)) sys) ps)"
  from Cons.prems obtain l where l: "results st = Some l" by auto
  let ?results' = "results(st \<mapsto> l @ map (cs_trial_record run) (List.enumerate n ?B))"
  have 1: "cs_periods_loop run st ps sys (results, n) = Inr (?results', n + length ps * length sys)"
    using l by (rule cs_periods_loop_eq)
  have "set sts \<subseteq> dom ?results'" using Cons.prems by auto
  then have 2: "cs_strategies_loop run sts ps sys (?results', n + length ps * length sys) =
     Inr (\<lambda>k. map_option (\<lambda>l. l @ map (cs_trial_record run)
                 (filter (strategy_is k) (List.enumerate (n + length ps * length sys) (trial_matrix sts ps sys))))
               (?results' k),
          (n + length ps * length sys) + length sts * length ps * length sys)"
    by (rule Cons.IH)
  have 3: "(\<lambda>k. map_option (\<lambda>l. l @ map (cs_trial_record run)
                 (filter (strategy_is k) (List.enumerate (n + length ps * length sys) (trial_matrix sts ps sys))))
               (?results' k))
         = (\<lambda>k. map_option (\<lambda>l. l @ map (cs_trial_record run)
                 (filter (strategy_is k) (List.enumerate n (trial_matrix (st # sts) ps sys)))) (results k))"
  proof (rule ext)
    fix k
    show "map_option (\<lambda>l. l @ map (cs_trial_record run)
                 (filter (strategy_is k) (List.enumerate (n + length ps * length sys) (trial_matrix sts ps sys))))
               (?results' k)
         = map_option (\<lambda>l. l @ map (cs_trial_record run)
                 (filter (strategy_is k) (List.enumerate n (trial_matrix (st # sts) ps sys)))) (results k)"
    proof (cases "k = st")
      case True
      then show ?thesis
        by (simp add: trial_matrix_Cons enumerate_append_eq filter_strategy_block length_block l)
    next
      case False
      then show ?thesis
        by (simp add: trial_matrix_Cons enumerate_append_eq filter_strategy_block length_block)
    qed
  qed
  show ?case
    unfolding cs_strategies_loop.simps 1 sum.case 2 3
    by (simp add: add_mult_distrib add.assoc)
qed

lemma cs_init_eq: "cs_init sts k = (if k \<in> set sts then Some [] else None)"
  by (induction sts) auto

lemma cs_run_trials_eq:
  "cs_run_trials run sts ps sys =
     Inr (\<lambda>k. if k \<in> set sts
               then Some (map (cs_trial_record run) (filter (strategy_is k) (List.enumerate 0 (trial_matrix sts ps sys))))
               else None)"
proof -
  have "set sts \<subseteq> dom (cs_init sts)" by (auto simp: cs_init_eq)
  then show ?thesis
    by (auto simp: cs_run_trials_def cs_strategies_loop_eq cs_init_eq intro!: ext)
qed

lemma cs_all_results_eq:
  "set ks \<subseteq> A \<Longrightarrow>
   cs_all_results ks (\<lambda>k. if k \<in> A then Some (G k) else None) = Inr (concat (map G ks))"
  by (induction ks) simp_all

lemma filter_strategy_absent:
  "k \<notin> set sts \<Longrightarrow> filter (strategy_is k) (List.enumerate n (trial_matrix sts ps sys)) = []"
proof (induction sts arbitrary: n)
  case Nil
  then show ?case by (simp add: trial_matrix_def)
next
  case (Cons st sts)
  then show ?case
    by (simp add: trial_matrix_Cons enumerate_append_eq filter_strategy_block)
qed

lemma concat_filter_distinct:
  "distinct sts \<Longrightarrow>
   concat (map (\<lambda>k. filter (strategy_is k) (List.enumerate n (trial_matrix sts ps sys))) sts)
   = List.enumerate n (trial_matrix sts ps sys)"
proof (induction sts arbitrary: n)
  case Nil
  then show ?case by (simp add: trial_matrix_def)
next
  case (Cons st sts)
  let ?B = "concat (map (\<lambda>p. map (\<lambda>sy. (st, p, sy)) sys) ps)"
  let ?n' = "n + length ?B"
  have hd: "filter (strategy_is st) (List.enumerate n (trial_matrix (st # sts) ps sys)) = List.enumerate n ?B"
    using Cons.prems
    by (simp add: trial_matrix_Cons enumerate_append_eq filter_strategy_block filter_strategy_absent)
  have tl: "map (\<lambda>k. filter (strategy_is k) (List.enumerate n (trial_matrix (st # sts) ps sys))) sts
          = map (\<lambda>k. filter (strategy_is k) (List.enumerate ?n' (trial_matrix sts ps sys))) sts"
    using Cons.prems
    by (intro map_cong refl) (auto simp: trial_matrix_Cons enumerate_append_eq filter_strategy_block)
  have "concat (map (\<lambda>k. filter (strategy_is k) (List.enumerate ?n' (trial_matrix sts ps sys))) sts)
        = List.enumerate ?n' (trial_matrix sts ps sys)"
    using Cons.prems by (intro Cons.IH) simp
  then show ?case
    unfolding list.map concat.simps hd tl
    by (simp add: trial_matrix_Cons enumerate_append_eq)
qed

lemma sum_length_filter_key:
  "finite A \<Longrightarrow> (\<forall>x\<in>set xs. f x \<in> A) \<Longrightarrow> (\<Sum>k\<in>A. length (filter (\<lambda>x. f x = k) xs)) = length xs"
proof (induction xs)
  case Nil
  then show ?case by simp
next
  case (Cons x xs)
  have "(\<Sum>k\<in>A. length (filter (\<lambda>y. f y = k) (x # xs)))
        = (\<Sum>k\<in>A. (if f x = k then 1 else 0) + length (filter (\<lambda>y. f y = k) xs))"
    by (intro sum.cong refl) simp
  also have "\<dots> = (\<Sum>k\<in>A. (if f x = k then 1 else 0)) + (\<Sum>k\<in>A. length (filter (\<lambda>y. f y = k) xs))"
    by (rule sum.distrib)
  also have "\<dots> = 1 + length xs"
    using Cons by simp
  finally show ?case by simp
qed

lemma strategy_is_fst: "strategy_is k = (\<lambda>x. fst (snd x) = k)"
  by (auto simp: strategy_is_def fun_eq_iff)

lemma strategy_in_matrix:
  "x \<in> set (List.enumerate n (trial_matrix sts ps sys)) \<Longrightarrow> fst (snd x) \<in> set sts"
proof -
  assume "x \<in> set (List.enumerate n (trial_matrix sts ps sys))"
  then have "snd x \<in> set (trial_matrix sts ps sys)"
    by (metis in_set_enumerate_eq nth_mem less_diff_conv2)
  then show ?thesis by (auto simp: trial_matrix_def)
qed

lemma vrf_symbols_loop_eq:
  "vrf_symbols_loop run p sys (results, n) =
     (results @ map (vrf_trial_record run) (List.enumerate n (map (\<lambda>sy. (p, sy)) sys)), n + length sys)"
proof (induction sys arbitrary: results n)
  case Nil
  then show ?case by (cases p) simp
next
  case (Cons sy sys)
  obtain pn sd ed where p: "p = (pn, sd, ed)" by (cases p) auto
  show ?case
    using Cons.IH[of "results @ [vrf_record pn sy sd ed (vrf_run_benchmark (run n) sy sd ed)]" "Suc n"]
    by (simp add: p vrf_trial_record_def)
qed

lemma vrf_periods_loop_eq:
  "vrf_periods_loop run ps sys (results, n) =
     (results @ map (vrf_trial_record run) (List.enumerate n (period_matrix ps sys)),
      n + length ps * length sys)"
proof (induction ps arbitrary: results n)
  case Nil
  then show ?case by (simp add: period_matrix_def)
next
  case (Cons p ps)
  show ?case
    by (simp add: vrf_symbols_loop_eq Cons.IH period_matrix_def enumerate_append_eq add.assoc)
qed

lemma vrf_run_trials_eq:
  "vrf_run_trials run ps sys = map (vrf_trial_record run) (List.enumerate 0 (period_matrix ps sys))"
  by (simp add: vrf_run_trials_def vrf_periods_loop_eq)

lemma length_period_matrix: "length (period_matrix ps sys) = length ps * length sys"
  by (induction ps) (simp_all add: period_matrix_def)

lemma successful_of_removeAll:
  "status r \<noteq> ''SUCCESS'' \<Longrightarrow> successful_of (removeAll r rs) = successful_of rs"
  by (induction rs) (auto simp: successful_of_def)

lemma parse_output_failure_zero:
  "parse_output output = Inr d \<Longrightarrow> status d \<noteq> ''SUCCESS'' \<Longrightarrow> return d = 0 \<and> net d = 0 \<and> trades d = 0"
  by (auto simp: parse_output_def split: option.splits sum.splits prod.splits)

lemma handlers_zero: "return (handlers e) = 0 \<and> net (handlers e) = 0 \<and> trades (handlers e) = 0"
  by (cases e) simp_all

lemma run_benchmark_failure_zero:
  assumes "status (run_benchmark subprocess_run sy sd ed st) \<noteq> ''SUCCESS''"
  shows "return (run_benchmark subprocess_run sy sd ed st) = 0
       \<and> net (run_benchmark subprocess_run sy sd ed st) = 0
       \<and> trades (run_benchmark subprocess_run sy sd ed st) = 0"
proof (cases "try_body (subprocess_run (cmd sy sd ed st))")
  case (Inl e)
  then show ?thesis by (simp add: run_benchmark_def handlers_zero)
next
  case (Inr d)
  then obtain p where "subprocess_run (cmd sy sd ed st) = Inr p" "parse_output (stdout p @ stderr p) = Inr d"
    by (auto simp: try_body_def split: sum.splits)
  moreover have "run_benchmark subprocess_run sy sd ed st = d"
    using Inr by (simp add: run_benchmark_def)
  ultimately show ?thesis using assms parse_output_failure_zero by auto
qed

lemma cs_trial_record_failure_zero:
  "status (cs_trial_record run x) \<noteq> ''SUCCESS'' \<Longrightarrow>
   return (cs_trial_record run x) = 0 \<and> net (cs_trial_record run x) = 0 \<and> trades (cs_trial_record run x) = 0"
  using run_benchmark_failure_zero
  by (auto simp: cs_trial_record_def cs_record_def split: prod.splits)

lemma stub_first:
  "run_benchmark (stub_run 0) ''AAA'' ''2024-01-01'' ''2024-01-31'' ''s1''
   = \<lparr>return = 2, net = 10, trades = 3, status = ''SUCCESS''\<rparr>"
  by (simp add: run_benchmark_def try_body_def stub_run_def
      parse_output_def match_here_def net_field_def trades_field_def lit_def
      is_space_def is_digit_def is_num_char_def is_dot_def py_float_def py_int_def
      float_body_ok_def float_body_val_def digits_val_def digit_val_def)

lemma stub_second:
  "run_benchmark (stub_run (Suc 0)) ''BBB'' ''2024-01-01'' ''2024-01-31'' ''s1''
   = \<lparr>return = 0, net = 0, trades = 0, status = ''TIMEOUT''\<rparr>"
  by (simp add: run_benchmark_def try_body_def stub_run_def)

lemma float_overflow_large: "2 ^ 1000 < float_overflow"
  by (simp add: float_overflow_def)

lemma int_true_div_small:
  assumes "b \<noteq> 0" "\<bar>a\<bar> < 2 ^ 1000"
  shows "int_true_div a b = Inr (of_int a / of_int b)"
proof -
  have "1 \<le> \<bar>of_int b :: rat\<bar>" using assms(1) by (simp add: of_int_abs[symmetric] del: of_int_abs)
  then have "\<bar>of_int a :: rat\<bar> * 1 \<le> \<bar>of_int a\<bar> * \<bar>of_int b\<bar>"
    by (intro mult_left_mono) simp_all
  then have "\<bar>of_int a / of_int b :: rat\<bar> \<le> \<bar>of_int a\<bar>"
    using assms(1) by (simp add: divide_le_eq)
  also have "\<dots> < 2 ^ 1000"
    using assms(2) by (metis of_int_abs of_int_less_iff of_int_numeral of_int_power)
  finally have "\<bar>of_int a / of_int b :: rat\<bar> < float_overflow"
    using float_overflow_large by simp
  then show ?thesis using assms(1) by (simp add: int_true_div_def)
qed

lemma int_true_div_le:
  assumes "b \<noteq> 0" "\<bar>a\<bar> \<le> \<bar>b\<bar>"
  shows "int_true_div a b = Inr (of_int a / of_int b)"
proof -
  have "\<bar>of_int a :: rat\<bar> \<le> \<bar>of_int b\<bar>"
    using assms(2) by (metis of_int_abs of_int_le_iff)
  then have "\<bar>of_int a / of_int b :: rat\<bar> \<le> 1"
    using assms(1) by (simp add: abs_divide divide_le_eq)
  also have "(1 :: rat) < float_overflow"
    using float_overflow_large by (simp add: less_trans[OF _ float_overflow_large])
  finally show ?thesis using assms(1) by (simp add: int_true_div_def)
qed

lemma true_div_nonzero: "b \<noteq> 0 \<Longrightarrow> true_div a b = Inr (a / b)"
  by (simp add: true_div_def)

lemma winners_of_le: "winners_of xs \<le> length xs"
  by (simp add: winners_of_def)

lemma win_rate_div:
  "xs \<noteq> [] \<Longrightarrow>
   int_true_div (int (winners_of xs)) (int (length xs)) = Inr (of_nat (winners_of xs) / of_nat (length xs))"
  using int_true_div_le[of "int (length xs)" "int (winners_of xs)"] winners_of_le[of xs]
  by simp

lemma cs_strategy_summary_eq:
  "cs_strategy_summary st rs =
     (if successful_of rs = [] then ([], None)
      else
        (case int_true_div (sum_list (map trades (successful_of rs))) (int (length (successful_of rs))) of
           Inl e \<Rightarrow>
             ([StrategyName st,
               AvgReturn (sum_list (map return (successful_of rs)) / of_nat (length (successful_of rs))),
               TotalPnl (sum_list (map net (successful_of rs))),
               WinRate (of_nat (winners_of (successful_of rs)) / of_nat (length (successful_of rs)) * 100),
               TotalTrades (sum_list (map trades (successful_of rs)))], Some e)
         | Inr avg_trades \<Rightarrow>
             ([StrategyName st,
               AvgReturn (sum_list (map return (successful_of rs)) / of_nat (length (successful_of rs))),
               TotalPnl (sum_list (map net (successful_of rs))),
               WinRate (of_nat (winners_of (successful_of rs)) / of_nat (length (successful_of rs)) * 100),
               TotalTrades (sum_list (map trades (successful_of rs))),
               AvgTrades avg_trades], None)))"
  by (simp add: cs_strategy_summary_def Let_def true_div_nonzero win_rate_div)

lemma vrf_summary_eq:
  "vrf_summary total_tests rs =
     (if successful_of rs = [] then ([NoSuccessfulTests], None)
      else
        (case int_true_div (sum_list (map trades (successful_of rs))) (int (length (successful_of rs))) of
           Inl e \<Rightarrow>
             ([Heading ''Summary Statistics:'',
               TestsCompleted (length (successful_of rs)) total_tests,
               AvgReturn (sum_list (map return (successful_of rs)) / of_nat (length (successful_of rs))),
               TotalPnl (sum_list (map net (successful_of rs))),
               WinRate (of_nat (winners_of (successful_of rs)) / of_nat (length (successful_of rs)) * 100),
               TotalTrades (sum_list (map trades (successful_of rs)))], Some e)
         | Inr avg_trades \<Rightarrow>
             ([Heading ''Summary Statistics:'',
               TestsCompleted (length (successful_of rs)) total_tests,
               AvgReturn (sum_list (map return (successful_of rs)) / of_nat (length (successful_of rs))),
               TotalPnl (sum_list (map net (successful_of rs))),
               WinRate (of_nat (winners_of (successful_of rs)) / of_nat (length (successful_of rs)) * 100),
               TotalTrades (sum_list (map trades (successful_of rs))),
               AvgTrades avg_trades], None)))"
  by (simp add: vrf_summary_def Let_def true_div_nonzero win_rate_div split: sum.splits)

lemma cs_strategy_summary_removeAll:
  "status r \<noteq> ''SUCCESS'' \<Longrightarrow> cs_strategy_summary st (removeAll r rs) = cs_strategy_summary st rs"
  by (simp add: cs_strategy_summary_def successful_of_removeAll)

lemma cs_period_line_successful:
  "cs_period_line pn st rs = cs_period_line pn st (successful_of rs)"
proof -
  have "filter (\<lambda>r. period r = pn \<and> status r = ''SUCCESS'') rs
        = filter (\<lambda>r. period r = pn \<and> status r = ''SUCCESS'') (successful_of rs)"
    by (auto simp: successful_of_def intro: filter_cong)
  then show ?thesis by (simp add: cs_period_line_def)
qed

lemma cs_period_line_removeAll:
  "status r \<noteq> ''SUCCESS'' \<Longrightarrow> cs_period_line pn st (removeAll r rs) = cs_period_line pn st rs"
  using cs_period_line_successful[of pn st "removeAll r rs"] cs_period_line_successful[of pn st rs]
  by (simp add: successful_of_removeAll)

lemma cs_summary_cong:
  "(\<And>st rs. results st = Some rs \<Longrightarrow> cs_strategy_summary st (h rs) = cs_strategy_summary st rs) \<Longrightarrow>
   cs_summary sts (\<lambda>k. map_option h (results k)) = cs_summary sts results"
  by (induction sts) (auto split: option.splits)

lemma cs_period_strategies_cong:
  "(\<And>st rs. results st = Some rs \<Longrightarrow> cs_period_line pn st (h rs) = cs_period_line pn st rs) \<Longrightarrow>
   cs_period_strategies pn sts (\<lambda>k. map_option h (results k)) = cs_period_strategies pn sts results"
  by (induction sts) (auto split: option.splits)

lemma cs_breakdown_cong:
  "(\<And>pn st rs. results st = Some rs \<Longrightarrow> cs_period_line pn st (h rs) = cs_period_line pn st rs) \<Longrightarrow>
   cs_breakdown ps sts (\<lambda>k. map_option h (results k)) = cs_breakdown ps sts results"
proof (induction ps)
  case Nil
  then show ?case by simp
next
  case (Cons p ps)
  obtain pn sd ed where p: "p = (pn, sd, ed)" by (cases p) auto
  have "cs_period_strategies pn sts (\<lambda>k. map_option h (results k)) = cs_period_strategies pn sts results"
    by (rule cs_period_strategies_cong) (rule Cons.prems)
  moreover have "cs_breakdown ps sts (\<lambda>k. map_option h (results k)) = cs_breakdown ps sts results"
    by (rule Cons.IH) (rule Cons.prems)
  ultimately show ?case by (simp add: p)
qed

lemma path_join_neq: "path_join d name \<noteq> d"
proof
  assume "path_join d name = d"
  then have "length (path_join d name) = length d" by simp
  then show False by (simp add: path_join_def)
qed

lemma mkdir_exist_ok_eq:
  "d \<notin> dom (files f) \<Longrightarrow> mkdir_exist_ok d f = Inr (f\<lparr>dirs := insert d (dirs f)\<rparr>)"
  by (simp add: mkdir_exist_ok_def insert_absorb)

lemma write_table_eq:
  "path_join d name \<notin> dirs f \<Longrightarrow>
   write_table d name t (f\<lparr>dirs := insert d (dirs f)\<rparr>)
   = Inr (f\<lparr>dirs := insert d (dirs f), files := (files f)(path_join d name \<mapsto> t)\<rparr>)"
  by (simp add: write_table_def path_join_neq)

lemma cs_main_fs:
  assumes "RESULTS_DIR \<notin> dom (files f0)"
    and "path_join RESULTS_DIR (cs_results_file TIMESTAMP) \<notin> dirs f0"
  shows "fst (cs_main run TIMESTAMP f0 STRATEGIES PERIODS SYMBOLS) =
     f0\<lparr>dirs := insert RESULTS_DIR (dirs f0),
        files := (files f0)(path_join RESULTS_DIR (cs_results_file TIMESTAMP) \<mapsto>
          cs_table (concat (map (\<lambda>k. map (cs_trial_record run)
                     (filter (strategy_is k) (List.enumerate 0 (trial_matrix STRATEGIES PERIODS SYMBOLS))))
                     STRATEGIES)))\<rparr>"
proof -
  let ?E = "List.enumerate 0 (trial_matrix STRATEGIES PERIODS SYMBOLS)"
  let ?G = "\<lambda>k. map (cs_trial_record run) (filter (strategy_is k) ?E)"
  let ?results = "\<lambda>k. if k \<in> set STRATEGIES then Some (?G k) else None"
  have run: "cs_run_trials run STRATEGIES PERIODS SYMBOLS = Inr ?results"
    by (rule cs_run_trials_eq)
  have all: "cs_all_results STRATEGIES ?results = Inr (concat (map ?G STRATEGIES))"
    by (rule cs_all_results_eq) simp
  show ?thesis
    unfolding cs_main_def mkdir_exist_ok_eq[OF assms(1)] sum.case run all write_table_eq[OF assms(2)]
    by simp
qed

lemma vrf_main_fs:
  assumes "RESULTS_DIR \<notin> dom (files f0)"
    and "path_join RESULTS_DIR (vrf_results_file TIMESTAMP) \<notin> dirs f0"
  shows "fst (vrf_main run TIMESTAMP f0 PERIODS SYMBOLS) =
     f0\<lparr>dirs := insert RESULTS_DIR (dirs f0),
        files := (files f0)(path_join RESULTS_DIR (vrf_results_file TIMESTAMP) \<mapsto>
          vrf_table (map (vrf_trial_record run) (List.enumerate 0 (period_matrix PERIODS SYMBOLS))))\<rparr>"
  unfolding vrf_main_def mkdir_exist_ok_eq[OF assms(1)] sum.case Let_def write_table_eq[OF assms(2)]
  by (simp add: vrf_run_trials_eq)

lemma win_rate_printed_before_overflow:
  "cs_strategy_summary ''s1''
     [\<lparr>return = 1, net = 5, trades = 10 ^ 400, status = ''SUCCESS'', period = ''P1'', symbol = ''AAA'',
       strategy = ''s1''\<rparr>]
   = ([StrategyName ''s1'', AvgReturn 1, TotalPnl 5, WinRate 100, TotalTrades (10 ^ 400)],
      Some (Exception ''integer division result too large for a float''))"
  by (simp add: cs_strategy_summary_eq successful_of_def winners_of_def int_true_div_def float_overflow_def)

lemma stub_rows:
  "map cs_row (map (cs_trial_record stub_run)
     (List.enumerate 0 (trial_matrix [''s1''] [(''P1'', ''2024-01-01'', ''2024-01-31'')] [''AAA'', ''BBB''])))
   = [[S ''s1'', S ''P1'', S ''AAA'', F 2, F 10, I 3, S ''SUCCESS''],
      [S ''s1'', S ''P1'', S ''BBB'', F 0, F 0, I 0, S ''TIMEOUT'']]"
  by (simp add: trial_matrix_def cs_trial_record_def cs_record_def cs_row_def stub_first stub_second)

subsection \<open>The parser\<close>

text \<open>
  C2, as stated, fails: \<open>.\<close> does not match a newline, so a report whose three fields
  stand on different lines is not found. The text below has the three fields in order,
  a newline between the first two.
\<close>

theorem newline_between_fields_counterexample:
  "parse_output (''Return: 3.21%'' @ [CHR 0x0A] @ ''Net: $42.10 ... Trades: 7'')
   = Inr \<lparr>return = 0, net = 0, trades = 0, status = ''PARSE_ERROR''\<rparr>"
  by (simp add: parse_output_def match_here_def net_field_def trades_field_def lit_def
      is_space_def is_digit_def is_num_char_def is_dot_def)

text \<open>
  C2, amended. Take a text of the shape
  \<open>pre @ ''Return: 3.21%'' @ a @ ''Net: $42.10'' @ b @ ''Trades: 7'' @ post\<close> in which
  \<^item> \<open>pre\<close> holds no earlier \<open>Return:\<close>,
  \<^item> \<open>a\<close> holds no newline and no earlier \<open>Net:\<close>,
  \<^item> \<open>b\<close> holds no newline and no earlier \<open>Trades:\<close> and does not go on with a character of
    \<open>[-\d.]\<close>,
  \<^item> \<open>post\<close> does not go on with a digit.
  Then the parser returns SUCCESS with return 3.21, net 42.10 and 7 trades: the fields
  need not be contiguous, and the noise around and between them is otherwise arbitrary.
\<close>

theorem parse_report_line:
  assumes "\<not> sublist ''Return:'' pre"
    "CHR 0x0A \<notin> set a" "\<not> sublist ''Net:'' a"
    "CHR 0x0A \<notin> set b" "\<not> sublist ''Trades:'' b" "b = [] \<or> \<not> is_num_char (hd b)"
    "post = [] \<or> \<not> is_digit (hd post)"
  shows "parse_output (pre @ ''Return: 3.21%'' @ a @ ''Net: $42.10'' @ b @ ''Trades: 7'' @ post)
         = Inr \<lparr>return = 321 / 100, net = 421 / 10, trades = 7, status = ''SUCCESS''\<rparr>"
  unfolding parse_output_def re_search_321[OF assms]
  by (simp add: py_float_321 py_float_4210 py_int_7)

theorem parse_report_line_witness:
  "\<not> sublist ''Return:'' ''INFO run | ''
   \<and> CHR 0x0A \<notin> set '' | '' \<and> \<not> sublist ''Net:'' '' | ''
   \<and> CHR 0x0A \<notin> set '' ... '' \<and> \<not> sublist ''Trades:'' '' ... '' \<and> \<not> is_num_char (hd '' ... '')
   \<and> \<not> is_digit (hd '' done'')
   \<and> parse_output ''INFO run | Return: 3.21% | Net: $42.10 ... Trades: 7 done''
       = Inr \<lparr>return = 321 / 100, net = 421 / 10, trades = 7, status = ''SUCCESS''\<rparr>"
  using parse_report_line[of "''INFO run | ''" "'' | ''" "'' ... ''" "'' done''"]
  by (simp add: sublist_Cons_right is_num_char_def is_digit_def)

text \<open>
  C5. When the pattern matches nowhere in the captured text, the outcome is PARSE_ERROR
  with return, net and trades zero, in both scripts. Parsing raises nothing that escapes:
  on every text the lines inside the \<open>try\<close> either return a dictionary or raise an
  \<open>Exception\<close>, which the second handler of \<open>run_benchmark\<close> takes.
\<close>

theorem no_match_is_parse_error:
  assumes "re_search (stdout p @ stderr p) = None"
  shows "parse_output (stdout p @ stderr p)
           = Inr \<lparr>return = 0, net = 0, trades = 0, status = ''PARSE_ERROR''\<rparr>
       \<and> (subprocess_run (cmd sy sd ed st) = Inr p \<longrightarrow>
            run_benchmark subprocess_run sy sd ed st
              = \<lparr>return = 0, net = 0, trades = 0, status = ''PARSE_ERROR''\<rparr>)
       \<and> (subprocess_run (cmd sy sd ed ''advanced'') = Inr p \<longrightarrow>
            vrf_run_benchmark subprocess_run sy sd ed
              = \<lparr>return = 0, net = 0, trades = 0, status = ''PARSE_ERROR''\<rparr>)
       \<and> (\<forall>output. (\<exists>d. parse_output output = Inr d) \<or> (\<exists>msg. parse_output output = Inl (Exception msg)))"
proof -
  have pe: "parse_output (stdout p @ stderr p)
           = Inr \<lparr>return = 0, net = 0, trades = 0, status = ''PARSE_ERROR''\<rparr>"
    using assms by (simp add: parse_output_def)
  show ?thesis
    using pe parse_output_raises_only_Exception
    by (auto simp: run_benchmark_completed vrf_run_benchmark_completed)
qed

theorem no_match_is_parse_error_witness:
  "re_search (''warning: unused variable'' @ ''error: could not compile'') = None
   \<and> run_benchmark (\<lambda>c. Inr \<lparr>returncode = 101, stdout = ''warning: unused variable'',
                               stderr = ''error: could not compile''\<rparr>)
        ''AAPL'' ''2024-10-01'' ''2024-10-31'' ''advanced''
      = \<lparr>return = 0, net = 0, trades = 0, status = ''PARSE_ERROR''\<rparr>"
proof -
  let ?p = "\<lparr>returncode = 101, stdout = ''warning: unused variable'', stderr = ''error: could not compile''\<rparr>"
  have h: "re_search (stdout ?p @ stderr ?p) = None"
    by (simp add: match_here_def lit_def)
  show ?thesis
    using h no_match_is_parse_error[OF h, of "\<lambda>c. Inr ?p" "''AAPL''" "''2024-10-01''" "''2024-10-31''" "''advanced''"]
    by simp
qed

text \<open>
  C6. When \<open>subprocess.run\<close> returns, whatever the exit code, the outcome is the result
  of parsing \<open>stdout + stderr\<close>: the exit code is not read, and two runs that differ in
  the exit code only give the same outcome.
\<close>

theorem exit_code_ignored:
  assumes "subprocess_run (cmd sy sd ed st) = Inr p"
    and "subprocess_run' (cmd sy sd ed st) = Inr (p\<lparr>returncode := rc\<rparr>)"
  shows "run_benchmark subprocess_run sy sd ed st
           = (case parse_output (stdout p @ stderr p) of Inr d \<Rightarrow> d | Inl e \<Rightarrow> handlers e)
       \<and> run_benchmark subprocess_run' sy sd ed st = run_benchmark subprocess_run sy sd ed st"
  using assms by (simp add: run_benchmark_def try_body_def)

theorem exit_code_ignored_witness:
  "run_benchmark (\<lambda>c. Inr \<lparr>returncode = 1, stdout = ''Return: 2.00% | Net: $10.00 | Trades: 3'',
                            stderr = ''panicked''\<rparr>) ''AAA'' ''2024-01-01'' ''2024-01-31'' ''s1''
   = \<lparr>return = 2, net = 10, trades = 3, status = ''SUCCESS''\<rparr>
   \<and> run_benchmark (\<lambda>c. Inr \<lparr>returncode = 0, stdout = ''Return: 2.00% | Net: $10.00 | Trades: 3'',
                            stderr = ''panicked''\<rparr>) ''AAA'' ''2024-01-01'' ''2024-01-31'' ''s1''
   = \<lparr>return = 2, net = 10, trades = 3, status = ''SUCCESS''\<rparr>"
proof -
  let ?p = "\<lparr>returncode = 0, stdout = ''Return: 2.00% | Net: $10.00 | Trades: 3'', stderr = ''panicked''\<rparr>"
  have v: "parse_output (stdout ?p @ stderr ?p) = Inr \<lparr>return = 2, net = 10, trades = 3, status = ''SUCCESS''\<rparr>"
    by (simp add: parse_output_def match_here_def net_field_def trades_field_def lit_def
        is_space_def is_digit_def is_num_char_def is_dot_def py_float_def py_int_def
        float_body_ok_def float_body_val_def digits_val_def digit_val_def)
  show ?thesis
    using exit_code_ignored[of "\<lambda>c. Inr ?p" "''AAA''" "''2024-01-01''" "''2024-01-31''" "''s1''" ?p
        "\<lambda>c. Inr (?p\<lparr>returncode := 1\<rparr>)" 1] v
    by simp
qed

text \<open>
  C9. When the pattern matches with groups \<open>g1\<close>, \<open>g2\<close>, \<open>g3\<close> at position \<open>i\<close> of the
  captured text and at no position before \<open>i\<close>, the outcome of the parser is built from
  these three groups: SUCCESS with their values, or the error of the first conversion
  that fails. Matches further right play no part. The outcome is a function of the text
  alone: every run whose \<open>stdout + stderr\<close> is this text has it, whatever the symbol, the
  dates, the strategy and the exit code.
\<close>

theorem parser_uses_leftmost_match:
  assumes "i \<le> length output"
    and "match_here (drop i output) = Some (g1, g2, g3)"
    and "\<forall>j<i. match_here (drop j output) = None"
  shows "parse_output output =
           (case py_float g1 of
              Inl e \<Rightarrow> Inl e
            | Inr r \<Rightarrow>
                (case py_float g2 of
                   Inl e \<Rightarrow> Inl e
                 | Inr n \<Rightarrow>
                     (case py_int g3 of
                        Inl e \<Rightarrow> Inl e
                      | Inr t \<Rightarrow> Inr \<lparr>return = r, net = n, trades = t, status = ''SUCCESS''\<rparr>)))
       \<and> (\<forall>subprocess_run sy sd ed st p.
            subprocess_run (cmd sy sd ed st) = Inr p \<and> stdout p @ stderr p = output \<longrightarrow>
            run_benchmark subprocess_run sy sd ed st =
              (case py_float g1 of
                 Inl e \<Rightarrow> handlers e
               | Inr r \<Rightarrow>
                   (case py_float g2 of
                      Inl e \<Rightarrow> handlers e
                    | Inr n \<Rightarrow>
                        (case py_int g3 of
                           Inl e \<Rightarrow> handlers e
                         | Inr t \<Rightarrow> \<lparr>return = r, net = n, trades = t, status = ''SUCCESS''\<rparr>))))"
proof -
  have "re_search output = Some (g1, g2, g3)"
    using assms by (intro re_search_iff[THEN iffD2]) blast
  then have po: "parse_output output =
           (case py_float g1 of
              Inl e \<Rightarrow> Inl e
            | Inr r \<Rightarrow>
                (case py_float g2 of
                   Inl e \<Rightarrow> Inl e
                 | Inr n \<Rightarrow>
                     (case py_int g3 of
                        Inl e \<Rightarrow> Inl e
                      | Inr t \<Rightarrow> Inr \<lparr>return = r, net = n, trades = t, status = ''SUCCESS''\<rparr>)))"
    by (simp add: parse_output_def)
  show ?thesis
    unfolding po[symmetric]
    by (auto simp: run_benchmark_completed po split: sum.splits)
qed

theorem parser_uses_leftmost_match_witness:
  "match_here (drop 32 ''x Return: 1% Net: $2 Trades: 3; Return: 4% Net: $5 Trades: 6'') = Some (''4'', ''5'', ''6'')
   \<and> parse_output ''x Return: 1% Net: $2 Trades: 3; Return: 4% Net: $5 Trades: 6''
       = Inr \<lparr>return = 1, net = 2, trades = 3, status = ''SUCCESS''\<rparr>"
proof -
  let ?s = "''x Return: 1% Net: $2 Trades: 3; Return: 4% Net: $5 Trades: 6''"
  have m: "match_here (drop 2 ?s) = Some (''1'', ''2'', ''3'')"
    by (simp add: match_here_def net_field_def trades_field_def lit_def
        is_space_def is_digit_def is_num_char_def is_dot_def)
  have n: "\<forall>j<2. match_here (drop j ?s) = None"
    by (simp add: less_Suc_eq numeral_2_eq_2 match_here_def lit_def)
  have l: "match_here (drop 32 ?s) = Some (''4'', ''5'', ''6'')"
    by (simp add: match_here_def net_field_def trades_field_def lit_def
        is_space_def is_digit_def is_num_char_def is_dot_def)
  have i: "2 \<le> length ?s" by simp
  have f: "py_float ''1'' = Inr 1" "py_float ''2'' = Inr 2" "py_int ''3'' = Inr 3"
    by (simp_all add: py_float_def py_int_def float_body_ok_def float_body_val_def
        digits_val_def digit_val_def is_digit_def)
  from parser_uses_leftmost_match[OF i m n]
  have "parse_output ?s = Inr \<lparr>return = 1, net = 2, trades = 3, status = ''SUCCESS''\<rparr>"
    by (simp only: f sum.case)
  with l show ?thesis by blast
qed

text \<open>
  C10. When the pattern matches and group 1 or group 2 is not a number \<open>float\<close> accepts
  (only points, a bare minus sign), \<open>float\<close> raises inside the \<open>try\<close>, the handler for
  \<open>Exception\<close> takes it, and the outcome has return, net and trades zero and the status
  \<open>ERROR: could not convert string to float: '...'\<close> naming the first such group. The
  status is not PARSE_ERROR and nothing propagates to the caller.
\<close>

theorem bad_number_is_error:
  assumes "re_search (stdout p @ stderr p) = Some (g1, g2, g3)"
    and "(\<exists>e. py_float g1 = Inl e) \<or> (\<exists>e. py_float g2 = Inl e)"
    and "subprocess_run (cmd sy sd ed st) = Inr p"
  shows "run_benchmark subprocess_run sy sd ed st
           = \<lparr>return = 0, net = 0, trades = 0,
              status = ''ERROR: could not convert string to float: '' @ [CHR 0x27]
                       @ (case py_float g1 of Inl e \<Rightarrow> g1 | Inr r \<Rightarrow> g2) @ [CHR 0x27]\<rparr>"
proof (cases "py_float g1")
  case (Inl e)
  then have "parse_output (stdout p @ stderr p) = Inl (float_error g1)"
    using assms(1) py_float_Inl[OF Inl] by (simp add: parse_output_def)
  then have "run_benchmark subprocess_run sy sd ed st = handlers (float_error g1)"
    using assms(3) by (simp add: run_benchmark_completed)
  then show ?thesis using Inl by (simp add: float_error_def)
next
  case (Inr r)
  with assms(2) obtain e where e: "py_float g2 = Inl e" by auto
  have "parse_output (stdout p @ stderr p) = Inl (float_error g2)"
    using assms(1) Inr e py_float_Inl[OF e] by (simp add: parse_output_def)
  then have "run_benchmark subprocess_run sy sd ed st = handlers (float_error g2)"
    using assms(3) by (simp add: run_benchmark_completed)
  then show ?thesis using Inr by (simp add: float_error_def)
qed

theorem bad_number_is_error_witness:
  "re_search (''Return: ...% Net: $- Trades: 7'' @ []) = Some (''...'', ''-'', ''7'')
   \<and> run_benchmark (\<lambda>c. Inr \<lparr>returncode = 0, stdout = ''Return: ...% Net: $- Trades: 7'', stderr = []\<rparr>)
        ''AAPL'' ''2024-10-01'' ''2024-10-31'' ''advanced''
      = \<lparr>return = 0, net = 0, trades = 0,
         status = ''ERROR: could not convert string to float: '' @ [CHR 0x27] @ ''...'' @ [CHR 0x27]\<rparr>"
proof -
  let ?p = "\<lparr>returncode = 0, stdout = ''Return: ...% Net: $- Trades: 7'', stderr = []\<rparr>"
  have m: "re_search (stdout ?p @ stderr ?p) = Some (''...'', ''-'', ''7'')"
    by (simp add: match_here_def net_field_def trades_field_def lit_def
        is_space_def is_digit_def is_num_char_def is_dot_def)
  have f: "py_float ''...'' = Inl (float_error ''...'')"
    by (simp add: py_float_def float_body_ok_def is_digit_def)
  then have b: "(\<exists>e. py_float ''...'' = Inl e) \<or> (\<exists>e. py_float ''-'' = Inl e)"
    by blast
  show ?thesis
    using m f bad_number_is_error[OF m b, of "\<lambda>c. Inr ?p" "''AAPL''" "''2024-10-01''" "''2024-10-31''" "''advanced''"]
    by simp
qed

subsection \<open>The harness\<close>

text \<open>
  C1. For all lists of strategies, periods and symbols and every behaviour of the
  evaluator, the loops of compare_strategies.py end without an exception. The call
  number \<open>n\<close> is made for entry \<open>n\<close> of the trial matrix, so the trials run strategy
  outermost, then periods, then symbols, and the list kept under a strategy holds the
  records of its trials in that order. The lists hold
  \<open>|STRATEGIES| * |PERIODS| * |SYMBOLS|\<close> records together. When the strategy names
  are distinct, \<open>all_results\<close> is the list of the records of the whole matrix in
  generation order. validate_risk_filter.py, where the strategy is fixed, collects the
  records of the period matrix in order, \<open>|PERIODS| * |SYMBOLS|\<close> of them.
\<close>

theorem trial_records_follow_matrix:
  "(\<exists>results.
      cs_run_trials run STRATEGIES PERIODS SYMBOLS = Inr results
      \<and> (\<forall>st. results st =
            (if st \<in> set STRATEGIES
             then Some (map (cs_trial_record run)
                    (filter (strategy_is st) (List.enumerate 0 (trial_matrix STRATEGIES PERIODS SYMBOLS))))
             else None))
      \<and> (\<Sum>st\<in>set STRATEGIES. case results st of None \<Rightarrow> 0 | Some l \<Rightarrow> length l)
          = length STRATEGIES * length PERIODS * length SYMBOLS
      \<and> (distinct STRATEGIES \<longrightarrow>
           cs_all_results STRATEGIES results
             = Inr (map (cs_trial_record run) (List.enumerate 0 (trial_matrix STRATEGIES PERIODS SYMBOLS)))))
   \<and> length (trial_matrix STRATEGIES PERIODS SYMBOLS) = length STRATEGIES * length PERIODS * length SYMBOLS
   \<and> vrf_run_trials run PERIODS SYMBOLS
       = map (vrf_trial_record run) (List.enumerate 0 (period_matrix PERIODS SYMBOLS))
   \<and> length (vrf_run_trials run PERIODS SYMBOLS) = length PERIODS * length SYMBOLS"
proof -
  let ?E = "List.enumerate 0 (trial_matrix STRATEGIES PERIODS SYMBOLS)"
  let ?G = "\<lambda>k. map (cs_trial_record run) (filter (strategy_is k) ?E)"
  let ?results = "\<lambda>k. if k \<in> set STRATEGIES then Some (?G k) else None"
  have run: "cs_run_trials run STRATEGIES PERIODS SYMBOLS = Inr ?results"
    by (rule cs_run_trials_eq)
  have "(\<Sum>st\<in>set STRATEGIES. case ?results st of None \<Rightarrow> 0 | Some l \<Rightarrow> length l)
        = (\<Sum>st\<in>set STRATEGIES. length (filter (\<lambda>x. fst (snd x) = st) ?E))"
    by (intro sum.cong refl) (simp add: strategy_is_fst)
  also have "\<dots> = length ?E"
    by (rule sum_length_filter_key) (auto dest: strategy_in_matrix)
  finally have count: "(\<Sum>st\<in>set STRATEGIES. case ?results st of None \<Rightarrow> 0 | Some l \<Rightarrow> length l)
        = length STRATEGIES * length PERIODS * length SYMBOLS"
    by (simp add: length_trial_matrix)
  have all: "cs_all_results STRATEGIES ?results = Inr (map (cs_trial_record run) ?E)" if "distinct STRATEGIES"
  proof -
    have "cs_all_results STRATEGIES ?results = Inr (concat (map ?G STRATEGIES))"
      by (rule cs_all_results_eq) simp
    also have "concat (map ?G STRATEGIES)
               = map (cs_trial_record run) (concat (map (\<lambda>k. filter (strategy_is k) ?E) STRATEGIES))"
      by (simp add: map_concat comp_def)
    also have "concat (map (\<lambda>k. filter (strategy_is k) ?E) STRATEGIES) = ?E"
      using that by (rule concat_filter_distinct)
    finally show ?thesis .
  qed
  have cs: "\<exists>results.
      cs_run_trials run STRATEGIES PERIODS SYMBOLS = Inr results
      \<and> (\<forall>st. results st = (if st \<in> set STRATEGIES then Some (?G st) else None))
      \<and> (\<Sum>st\<in>set STRATEGIES. case results st of None \<Rightarrow> 0 | Some l \<Rightarrow> length l)
          = length STRATEGIES * length PERIODS * length SYMBOLS
      \<and> (distinct STRATEGIES \<longrightarrow> cs_all_results STRATEGIES results = Inr (map (cs_trial_record run) ?E))"
    using run count all by (intro exI[of _ ?results]) blast
  show ?thesis
    using cs by (simp add: length_trial_matrix vrf_run_trials_eq length_period_matrix)
qed

theorem trial_records_follow_matrix_witness:
  "distinct [''s1'', ''s2'']
   \<and> (\<exists>results.
        cs_run_trials (\<lambda>n c. Inl TimeoutExpired) [''s1'', ''s2'']
            [(''P1'', ''2024-01-01'', ''2024-01-31''), (''P2'', ''2024-02-01'', ''2024-02-29'')] [''AAA'', ''BBB'']
          = Inr results
        \<and> map_sum id (map (\<lambda>r. (strategy r, period r, symbol r))) (cs_all_results [''s1'', ''s2''] results)
          = Inr [(''s1'', ''P1'', ''AAA''), (''s1'', ''P1'', ''BBB''), (''s1'', ''P2'', ''AAA''), (''s1'', ''P2'', ''BBB''),
                 (''s2'', ''P1'', ''AAA''), (''s2'', ''P1'', ''BBB''), (''s2'', ''P2'', ''AAA''), (''s2'', ''P2'', ''BBB'')])"
proof -
  let ?run = "\<lambda>(n::nat) (c::string list). (Inl TimeoutExpired :: exn + completed_process)"
  let ?S = "[''s1'', ''s2'']"
  let ?P = "[(''P1'', ''2024-01-01'', ''2024-01-31''), (''P2'', ''2024-02-01'', ''2024-02-29'')]"
  let ?Y = "[''AAA'', ''BBB'']"
  have d: "distinct ?S" by simp
  from trial_records_follow_matrix[of ?run ?S ?P ?Y] d
  obtain results where r: "cs_run_trials ?run ?S ?P ?Y = Inr results"
    "cs_all_results ?S results = Inr (map (cs_trial_record ?run) (List.enumerate 0 (trial_matrix ?S ?P ?Y)))"
    by blast
  have "map (\<lambda>r. (strategy r, period r, symbol r))
          (map (cs_trial_record ?run) (List.enumerate 0 (trial_matrix ?S ?P ?Y)))
        = [(''s1'', ''P1'', ''AAA''), (''s1'', ''P1'', ''BBB''), (''s1'', ''P2'', ''AAA''), (''s1'', ''P2'', ''BBB''),
           (''s2'', ''P1'', ''AAA''), (''s2'', ''P1'', ''BBB''), (''s2'', ''P2'', ''AAA''), (''s2'', ''P2'', ''BBB'')]"
    by (simp add: trial_matrix_def cs_trial_record_def cs_record_def)
  with r d show ?thesis by auto
qed

text \<open>
  C3. Whenever there is a SUCCESS record, either script prints the win rate, and it is
  the number of SUCCESS records with a return above zero, divided by the number of
  SUCCESS records, as a percentage. Records with another status count in neither
  number. The line is printed whether or not the average of the trades, computed for a
  later line, overflows. For one record at +1, one at -1 and one TIMEOUT the win rate is
  50 percent.
\<close>

theorem win_rate_over_successes:
  "(successful_of rs \<noteq> [] \<longrightarrow>
      (\<exists>a p rest e. cs_strategy_summary st rs
         = ([StrategyName st, AvgReturn a, TotalPnl p,
             WinRate (of_nat (length (filter (\<lambda>r. status r = ''SUCCESS'' \<and> return r > 0) rs))
                      / of_nat (length (filter (\<lambda>r. status r = ''SUCCESS'') rs)) * 100)] @ rest, e)))
   \<and> (successful_of vs \<noteq> [] \<longrightarrow>
      (\<exists>a p rest e. vrf_summary total_tests vs
         = ([Heading ''Summary Statistics:'',
             TestsCompleted (length (filter (\<lambda>r. status r = ''SUCCESS'') vs)) total_tests,
             AvgReturn a, TotalPnl p,
             WinRate (of_nat (length (filter (\<lambda>r. status r = ''SUCCESS'' \<and> return r > 0) vs))
                      / of_nat (length (filter (\<lambda>r. status r = ''SUCCESS'') vs)) * 100)] @ rest, e)))"
proof -
  have w: "\<And>xs :: 'a outcome_scheme list.
       winners_of (successful_of xs) = length (filter (\<lambda>r. status r = ''SUCCESS'' \<and> return r > 0) xs)"
    by (simp add: winners_of_def successful_of_def conj_commute)
  have l: "\<And>xs :: 'a outcome_scheme list.
       length (successful_of xs) = length (filter (\<lambda>r. status r = ''SUCCESS'') xs)"
    by (simp add: successful_of_def)
  show ?thesis
    by (auto simp: cs_strategy_summary_eq vrf_summary_eq w l split: sum.splits)
qed

theorem win_rate_over_successes_witness:
  "cs_strategy_summary ''s1''
     [\<lparr>return = 1, net = 5, trades = 2, status = ''SUCCESS'', period = ''P1'', symbol = ''AAA'', strategy = ''s1''\<rparr>,
      \<lparr>return = - 1, net = - 5, trades = 4, status = ''SUCCESS'', period = ''P1'', symbol = ''BBB'', strategy = ''s1''\<rparr>,
      \<lparr>return = 0, net = 0, trades = 0, status = ''TIMEOUT'', period = ''P1'', symbol = ''CCC'', strategy = ''s1''\<rparr>]
   = ([StrategyName ''s1'', AvgReturn 0, TotalPnl 0, WinRate 50, TotalTrades 6, AvgTrades 3], None)
   \<and> vrf_summary 3
     [\<lparr>return = 1, net = 5, trades = 2, status = ''SUCCESS'', period = ''P1'', symbol = ''AAA'',
       start_date = ''2024-01-01'', end_date = ''2024-01-31''\<rparr>,
      \<lparr>return = - 1, net = - 5, trades = 4, status = ''SUCCESS'', period = ''P1'', symbol = ''BBB'',
       start_date = ''2024-01-01'', end_date = ''2024-01-31''\<rparr>,
      \<lparr>return = 0, net = 0, trades = 0, status = ''TIMEOUT'', period = ''P1'', symbol = ''CCC'',
       start_date = ''2024-01-01'', end_date = ''2024-01-31''\<rparr>]
   = ([Heading ''Summary Statistics:'', TestsCompleted 2 3, AvgReturn 0, TotalPnl 0, WinRate 50,
       TotalTrades 6, AvgTrades 3], None)"
proof -
  let ?rs = "[\<lparr>return = 1, net = 5, trades = 2, status = ''SUCCESS'', period = ''P1'', symbol = ''AAA'', strategy = ''s1''\<rparr>,
      \<lparr>return = - 1, net = - 5, trades = 4, status = ''SUCCESS'', period = ''P1'', symbol = ''BBB'', strategy = ''s1''\<rparr>,
      \<lparr>return = 0, net = 0, trades = 0, status = ''TIMEOUT'', period = ''P1'', symbol = ''CCC'', strategy = ''s1''\<rparr>]"
  let ?vs = "[\<lparr>return = 1, net = 5, trades = 2, status = ''SUCCESS'', period = ''P1'', symbol = ''AAA'',
       start_date = ''2024-01-01'', end_date = ''2024-01-31''\<rparr>,
      \<lparr>return = - 1, net = - 5, trades = 4, status = ''SUCCESS'', period = ''P1'', symbol = ''BBB'',
       start_date = ''2024-01-01'', end_date = ''2024-01-31''\<rparr>,
      \<lparr>return = 0, net = 0, trades = 0, status = ''TIMEOUT'', period = ''P1'', symbol = ''CCC'',
       start_date = ''2024-01-01'', end_date = ''2024-01-31''\<rparr>]"
  have ne: "successful_of ?rs \<noteq> []" "successful_of ?vs \<noteq> []"
    by (simp_all add: successful_of_def)
  from win_rate_over_successes[of ?rs "''s1''" ?vs 3] ne
  obtain a p rest e a' p' rest' e' where s: "cs_strategy_summary ''s1'' ?rs
         = ([StrategyName ''s1'', AvgReturn a, TotalPnl p,
             WinRate (of_nat (length (filter (\<lambda>r. status r = ''SUCCESS'' \<and> return r > 0) ?rs))
                      / of_nat (length (filter (\<lambda>r. status r = ''SUCCESS'') ?rs)) * 100)] @ rest, e)"
     and v: "vrf_summary 3 ?vs
         = ([Heading ''Summary Statistics:'',
             TestsCompleted (length (filter (\<lambda>r. status r = ''SUCCESS'') ?vs)) 3,
             AvgReturn a', TotalPnl p',
             WinRate (of_nat (length (filter (\<lambda>r. status r = ''SUCCESS'' \<and> return r > 0) ?vs))
                      / of_nat (length (filter (\<lambda>r. status r = ''SUCCESS'') ?vs)) * 100)] @ rest', e')"
    by blast
  have d: "int_true_div 6 2 = Inr 3"
    using int_true_div_small[of 2 6] by simp
  have "cs_strategy_summary ''s1'' ?rs
        = ([StrategyName ''s1'', AvgReturn 0, TotalPnl 0, WinRate 50, TotalTrades 6, AvgTrades 3], None)"
    by (simp add: cs_strategy_summary_eq successful_of_def winners_of_def d)
  moreover have "vrf_summary 3 ?vs
        = ([Heading ''Summary Statistics:'', TestsCompleted 2 3, AvgReturn 0, TotalPnl 0, WinRate 50,
            TotalTrades 6, AvgTrades 3], None)"
    by (simp add: vrf_summary_eq successful_of_def winners_of_def d)
  ultimately show ?thesis using s v by simp
qed

text \<open>
  C4. The scripts as configured, with an evaluator that runs into the deadline on every
  trial. validate_risk_filter.py prints its line \<open>No successful tests!\<close>.
  compare_strategies.py prints the two headings and the period names and nothing for
  either strategy: no statistics, no division, and no line saying that there were no
  successful tests.
\<close>

theorem no_success_report:
  "snd (vrf_main (\<lambda>n c. Inl TimeoutExpired) ''T'' \<lparr>dirs = {}, files = Map.empty\<rparr> vrf_PERIODS vrf_SYMBOLS)
   = ([Heading ''Benchmark Complete!'',
       ResultsSaved ''benchmark_results/risk_filter_validation_T.csv'',
       NoSuccessfulTests,
       FullResults ''benchmark_results/risk_filter_validation_T.csv''], None)
   \<and> snd (cs_main (\<lambda>n c. Inl TimeoutExpired) ''T'' \<lparr>dirs = {}, files = Map.empty\<rparr>
        cs_STRATEGIES cs_PERIODS cs_SYMBOLS)
   = ([Heading ''COMPARISON SUMMARY'', Heading ''PERIOD BREAKDOWN'',
       PeriodName ''Election_Rally'', PeriodName ''Oct_2024'', PeriodName ''Sep_2024'',
       FullResults ''benchmark_results/strategy_comparison_T.csv''], None)"
  by (simp add: vrf_main_def cs_main_def Let_def vrf_run_trials_def cs_run_trials_def
      vrf_summary_def cs_strategy_summary_def cs_period_line_def successful_of_def then_print_def
      vrf_run_benchmark_def run_benchmark_def try_body_def vrf_record_def cs_record_def
      write_table_def mkdir_exist_ok_def RESULTS_DIR_def path_join_def
      vrf_results_file_def cs_results_file_def
      cs_STRATEGIES_def cs_PERIODS_def cs_SYMBOLS_def vrf_PERIODS_def vrf_SYMBOLS_def)

text \<open>
  C7, as stated, fails for validate_risk_filter.py: its table has no \<open>strategy\<close> column
  and has the columns \<open>start_date\<close> and \<open>end_date\<close>.
\<close>

theorem vrf_table_columns_counterexample:
  "map_option header
     (files (fst (vrf_main (\<lambda>n c. Inl TimeoutExpired) ''T'' \<lparr>dirs = {}, files = Map.empty\<rparr>
                    [(''P1'', ''2024-01-01'', ''2024-01-31'')] [''AAA'']))
        ''benchmark_results/risk_filter_validation_T.csv'')
   = Some [''period'', ''symbol'', ''start_date'', ''end_date'', ''return'', ''net'', ''trades'', ''status'']"
  by (simp add: vrf_main_def Let_def vrf_run_trials_def
      vrf_run_benchmark_def try_body_def vrf_record_def vrf_table_def vrf_fieldnames_def vrf_row_def
      write_table_def mkdir_exist_ok_def RESULTS_DIR_def path_join_def vrf_results_file_def)

text \<open>
  C7, amended. Start from a file system in which \<open>benchmark_results\<close> is not a regular
  file and the path of the new file is not a directory. Then each script leaves the
  directory \<open>benchmark_results\<close> in place, created when absent, and in it one new file
  whose name holds the time stamp, with a header row and the records as rows; this holds
  also when the summary printed afterwards ends in an exception. In
  compare_strategies.py the columns are strategy, period, symbol, return, net, trades,
  status, and the rows are the lists kept under the strategies, in the order of
  \<open>STRATEGIES\<close>; for distinct strategy names that is one row per trial in generation
  order. In validate_risk_filter.py the columns are period, symbol, start_date,
  end_date, return, net, trades, status, with one row per trial in generation order.
\<close>

theorem persisted_tables:
  assumes "''benchmark_results'' \<notin> dom (files f0)"
  shows
   "(''benchmark_results/strategy_comparison_'' @ TIMESTAMP @ ''.csv'' \<notin> dirs f0 \<longrightarrow>
       fst (cs_main run TIMESTAMP f0 STRATEGIES PERIODS SYMBOLS) =
         f0\<lparr>dirs := insert ''benchmark_results'' (dirs f0),
            files := (files f0)(''benchmark_results/strategy_comparison_'' @ TIMESTAMP @ ''.csv'' \<mapsto>
              \<lparr>header = [''strategy'', ''period'', ''symbol'', ''return'', ''net'', ''trades'', ''status''],
               rows = map cs_row (concat (map (\<lambda>k. map (cs_trial_record run)
                        (filter (strategy_is k) (List.enumerate 0 (trial_matrix STRATEGIES PERIODS SYMBOLS))))
                        STRATEGIES))\<rparr>)\<rparr>)
    \<and> (''benchmark_results/strategy_comparison_'' @ TIMESTAMP @ ''.csv'' \<notin> dirs f0
         \<and> distinct STRATEGIES \<longrightarrow>
       fst (cs_main run TIMESTAMP f0 STRATEGIES PERIODS SYMBOLS) =
         f0\<lparr>dirs := insert ''benchmark_results'' (dirs f0),
            files := (files f0)(''benchmark_results/strategy_comparison_'' @ TIMESTAMP @ ''.csv'' \<mapsto>
              \<lparr>header = [''strategy'', ''period'', ''symbol'', ''return'', ''net'', ''trades'', ''status''],
               rows = map cs_row (map (cs_trial_record run)
                        (List.enumerate 0 (trial_matrix STRATEGIES PERIODS SYMBOLS)))\<rparr>)\<rparr>)
    \<and> (''benchmark_results/risk_filter_validation_'' @ TIMESTAMP @ ''.csv'' \<notin> dirs f0 \<longrightarrow>
       fst (vrf_main run TIMESTAMP f0 PERIODS SYMBOLS) =
         f0\<lparr>dirs := insert ''benchmark_results'' (dirs f0),
            files := (files f0)(''benchmark_results/risk_filter_validation_'' @ TIMESTAMP @ ''.csv'' \<mapsto>
              \<lparr>header = [''period'', ''symbol'', ''start_date'', ''end_date'', ''return'', ''net'', ''trades'', ''status''],
               rows = map vrf_row (map (vrf_trial_record run)
                        (List.enumerate 0 (period_matrix PERIODS SYMBOLS)))\<rparr>)\<rparr>)"
proof -
  let ?E = "List.enumerate 0 (trial_matrix STRATEGIES PERIODS SYMBOLS)"
  have a: "RESULTS_DIR \<notin> dom (files f0)"
    using assms by (simp add: RESULTS_DIR_def)
  have d: "concat (map (\<lambda>k. map (cs_trial_record run) (filter (strategy_is k) ?E)) STRATEGIES)
        = map (cs_trial_record run) ?E" if "distinct STRATEGIES"
  proof -
    have "concat (map (\<lambda>k. map (cs_trial_record run) (filter (strategy_is k) ?E)) STRATEGIES)
          = map (cs_trial_record run) (concat (map (\<lambda>k. filter (strategy_is k) ?E) STRATEGIES))"
      by (simp add: map_concat comp_def)
    also have "concat (map (\<lambda>k. filter (strategy_is k) ?E) STRATEGIES) = ?E"
      using that by (rule concat_filter_distinct)
    finally show ?thesis .
  qed
  have cs: "fst (cs_main run TIMESTAMP f0 STRATEGIES PERIODS SYMBOLS) =
         f0\<lparr>dirs := insert ''benchmark_results'' (dirs f0),
            files := (files f0)(''benchmark_results/strategy_comparison_'' @ TIMESTAMP @ ''.csv'' \<mapsto>
              \<lparr>header = [''strategy'', ''period'', ''symbol'', ''return'', ''net'', ''trades'', ''status''],
               rows = map cs_row (concat (map (\<lambda>k. map (cs_trial_record run)
                        (filter (strategy_is k) ?E)) STRATEGIES))\<rparr>)\<rparr>"
    if "''benchmark_results/strategy_comparison_'' @ TIMESTAMP @ ''.csv'' \<notin> dirs f0"
  proof -
    have "path_join RESULTS_DIR (cs_results_file TIMESTAMP) \<notin> dirs f0"
      using that by (simp add: path_join_def RESULTS_DIR_def cs_results_file_def)
    from cs_main_fs[OF a this, of run STRATEGIES PERIODS SYMBOLS] show ?thesis
      by (simp add: path_join_def RESULTS_DIR_def cs_results_file_def cs_table_def cs_fieldnames_def)
  qed
  have vrf: "fst (vrf_main run TIMESTAMP f0 PERIODS SYMBOLS) =
         f0\<lparr>dirs := insert ''benchmark_results'' (dirs f0),
            files := (files f0)(''benchmark_results/risk_filter_validation_'' @ TIMESTAMP @ ''.csv'' \<mapsto>
              \<lparr>header = [''period'', ''symbol'', ''start_date'', ''end_date'', ''return'', ''net'', ''trades'', ''status''],
               rows = map vrf_row (map (vrf_trial_record run)
                        (List.enumerate 0 (period_matrix PERIODS SYMBOLS)))\<rparr>)\<rparr>"
    if "''benchmark_results/risk_filter_validation_'' @ TIMESTAMP @ ''.csv'' \<notin> dirs f0"
  proof -
    have "path_join RESULTS_DIR (vrf_results_file TIMESTAMP) \<notin> dirs f0"
      using that by (simp add: path_join_def RESULTS_DIR_def vrf_results_file_def)
    from vrf_main_fs[OF a this, of run PERIODS SYMBOLS] show ?thesis
      by (simp add: path_join_def RESULTS_DIR_def vrf_results_file_def vrf_table_def vrf_fieldnames_def)
  qed
  show ?thesis
    using cs vrf d by metis
qed

theorem persisted_tables_witness:
  "''benchmark_results'' \<notin> dom (files \<lparr>dirs = {}, files = Map.empty\<rparr>)
   \<and> ''benchmark_results/strategy_comparison_'' @ ''20240101_120000'' @ ''.csv''
       \<notin> dirs \<lparr>dirs = {}, files = Map.empty\<rparr>
   \<and> distinct [''s1'']
   \<and> fst (cs_main stub_run ''20240101_120000'' \<lparr>dirs = {}, files = Map.empty\<rparr>
          [''s1''] [(''P1'', ''2024-01-01'', ''2024-01-31'')] [''AAA'', ''BBB'']) =
         \<lparr>dirs = {}, files = Map.empty\<rparr>
           \<lparr>dirs := insert ''benchmark_results'' (dirs \<lparr>dirs = {}, files = Map.empty\<rparr>),
            files := (files \<lparr>dirs = {}, files = Map.empty\<rparr>)
              (''benchmark_results/strategy_comparison_'' @ ''20240101_120000'' @ ''.csv'' \<mapsto>
               \<lparr>header = [''strategy'', ''period'', ''symbol'', ''return'', ''net'', ''trades'', ''status''],
                rows = [[S ''s1'', S ''P1'', S ''AAA'', F 2, F 10, I 3, S ''SUCCESS''],
                        [S ''s1'', S ''P1'', S ''BBB'', F 0, F 0, I 0, S ''TIMEOUT'']]\<rparr>)\<rparr>"
proof -
  let ?f0 = "\<lparr>dirs = {}, files = Map.empty\<rparr> :: fs"
  have a: "''benchmark_results'' \<notin> dom (files ?f0)" by simp
  have b: "''benchmark_results/strategy_comparison_'' @ ''20240101_120000'' @ ''.csv'' \<notin> dirs ?f0"
    by simp
  have d: "distinct [''s1'']" by simp
  from persisted_tables[OF a, of "''20240101_120000''" stub_run "[''s1'']"
      "[(''P1'', ''2024-01-01'', ''2024-01-31'')]" "[''AAA'', ''BBB'']"] b d
  have "fst (cs_main stub_run ''20240101_120000'' ?f0
          [''s1''] [(''P1'', ''2024-01-01'', ''2024-01-31'')] [''AAA'', ''BBB'']) =
         ?f0\<lparr>dirs := insert ''benchmark_results'' (dirs ?f0),
            files := (files ?f0)(''benchmark_results/strategy_comparison_'' @ ''20240101_120000'' @ ''.csv'' \<mapsto>
              \<lparr>header = [''strategy'', ''period'', ''symbol'', ''return'', ''net'', ''trades'', ''status''],
               rows = map cs_row (map (cs_trial_record stub_run)
                        (List.enumerate 0 (trial_matrix [''s1''] [(''P1'', ''2024-01-01'', ''2024-01-31'')]
                           [''AAA'', ''BBB''])))\<rparr>)\<rparr>"
    by blast
  then show ?thesis
    unfolding stub_rows using a b d by blast
qed

text \<open>
  C8. Take a record \<open>r\<close> of a run of compare_strategies.py whose status is not SUCCESS.
  Its return, net and trades are zero. Removing it changes no statistic: not the
  summary of any strategy (average return, total P&L, win rate, total and average
  trades), not a line of the period breakdown, for any list of records and so for the
  results of the run. And the file that \<open>main\<close> writes for this run holds its row: the
  strategy, period and symbol, three zeros and its status. The file is written when
  \<open>benchmark_results\<close> is not a regular file and the path of the file is not a
  directory.
\<close>

theorem failed_trials_kept_but_not_counted:
  assumes "cs_run_trials run STRATEGIES PERIODS SYMBOLS = Inr results"
    and "cs_all_results STRATEGIES results = Inr all_results"
    and "r \<in> set all_results" and "status r \<noteq> ''SUCCESS''"
  shows "return r = 0 \<and> net r = 0 \<and> trades r = 0
       \<and> (\<forall>st rs. cs_strategy_summary st (removeAll r rs) = cs_strategy_summary st rs)
       \<and> (\<forall>pn st rs. cs_period_line pn st (removeAll r rs) = cs_period_line pn st rs)
       \<and> cs_summary STRATEGIES (\<lambda>k. map_option (removeAll r) (results k)) = cs_summary STRATEGIES results
       \<and> cs_breakdown PERIODS STRATEGIES (\<lambda>k. map_option (removeAll r) (results k))
           = cs_breakdown PERIODS STRATEGIES results
       \<and> (''benchmark_results'' \<notin> dom (files f0)
            \<and> ''benchmark_results/strategy_comparison_'' @ TIMESTAMP @ ''.csv'' \<notin> dirs f0 \<longrightarrow>
          (\<exists>t. files (fst (cs_main run TIMESTAMP f0 STRATEGIES PERIODS SYMBOLS))
                   (''benchmark_results/strategy_comparison_'' @ TIMESTAMP @ ''.csv'') = Some t
               \<and> header t = [''strategy'', ''period'', ''symbol'', ''return'', ''net'', ''trades'', ''status'']
               \<and> [S (strategy r), S (period r), S (symbol r), F 0, F 0, I 0, S (status r)] \<in> set (rows t)))"
proof -
  let ?E = "List.enumerate 0 (trial_matrix STRATEGIES PERIODS SYMBOLS)"
  let ?G = "\<lambda>k. map (cs_trial_record run) (filter (strategy_is k) ?E)"
  let ?results = "\<lambda>k. if k \<in> set STRATEGIES then Some (?G k) else None"
  have res: "results = ?results"
    using assms(1) by (simp add: cs_run_trials_eq)
  have "cs_all_results STRATEGIES ?results = Inr (concat (map ?G STRATEGIES))"
    by (rule cs_all_results_eq) simp
  with assms(2) have all: "all_results = concat (map ?G STRATEGIES)"
    by (simp add: res)
  with assms(3) obtain x where "r = cs_trial_record run x" by auto
  with assms(4) have zero: "return r = 0 \<and> net r = 0 \<and> trades r = 0"
    using cs_trial_record_failure_zero by blast
  have s: "\<And>st rs. cs_strategy_summary st (removeAll r rs) = cs_strategy_summary st rs"
    by (rule cs_strategy_summary_removeAll[OF assms(4)])
  have p: "\<And>pn st rs. cs_period_line pn st (removeAll r rs) = cs_period_line pn st rs"
    by (rule cs_period_line_removeAll[OF assms(4)])
  have sm: "cs_summary STRATEGIES (\<lambda>k. map_option (removeAll r) (results k)) = cs_summary STRATEGIES results"
    by (rule cs_summary_cong) (rule s)
  have bd: "cs_breakdown PERIODS STRATEGIES (\<lambda>k. map_option (removeAll r) (results k))
           = cs_breakdown PERIODS STRATEGIES results"
    by (rule cs_breakdown_cong) (rule p)
  have row: "[S (strategy r), S (period r), S (symbol r), F 0, F 0, I 0, S (status r)]
             \<in> set (map cs_row all_results)"
  proof -
    have "cs_row r = [S (strategy r), S (period r), S (symbol r), F 0, F 0, I 0, S (status r)]"
      using zero by (simp add: cs_row_def)
    then show ?thesis using assms(3) by (metis image_eqI set_map)
  qed
  have written: "\<exists>t. files (fst (cs_main run TIMESTAMP f0 STRATEGIES PERIODS SYMBOLS))
                   (''benchmark_results/strategy_comparison_'' @ TIMESTAMP @ ''.csv'') = Some t
               \<and> header t = [''strategy'', ''period'', ''symbol'', ''return'', ''net'', ''trades'', ''status'']
               \<and> [S (strategy r), S (period r), S (symbol r), F 0, F 0, I 0, S (status r)] \<in> set (rows t)"
    if "''benchmark_results'' \<notin> dom (files f0)"
      and "''benchmark_results/strategy_comparison_'' @ TIMESTAMP @ ''.csv'' \<notin> dirs f0"
  proof -
    have a: "RESULTS_DIR \<notin> dom (files f0)"
      using that(1) by (simp add: RESULTS_DIR_def)
    have b: "path_join RESULTS_DIR (cs_results_file TIMESTAMP) \<notin> dirs f0"
      using that(2) by (simp add: path_join_def RESULTS_DIR_def cs_results_file_def)
    have "files (fst (cs_main run TIMESTAMP f0 STRATEGIES PERIODS SYMBOLS))
            (''benchmark_results/strategy_comparison_'' @ TIMESTAMP @ ''.csv'') = Some (cs_table all_results)"
      unfolding cs_main_fs[OF a b] all
      by (simp add: path_join_def RESULTS_DIR_def cs_results_file_def)
    then show ?thesis
      using row by (simp add: cs_table_def cs_fieldnames_def)
  qed
  show ?thesis
    using zero s p sm bd written by blast
qed

theorem failed_trials_kept_but_not_counted_witness:
  "\<exists>results all_results r t.
     cs_run_trials stub_run [''s1''] [(''P1'', ''2024-01-01'', ''2024-01-31'')] [''AAA'', ''BBB''] = Inr results
     \<and> cs_all_results [''s1''] results = Inr all_results
     \<and> r \<in> set all_results \<and> status r = ''TIMEOUT'' \<and> symbol r = ''BBB''
     \<and> return r = 0 \<and> net r = 0 \<and> trades r = 0
     \<and> cs_summary [''s1''] (\<lambda>k. map_option (removeAll r) (results k)) = cs_summary [''s1''] results
     \<and> files (fst (cs_main stub_run ''20240101_120000'' \<lparr>dirs = {}, files = Map.empty\<rparr>
                     [''s1''] [(''P1'', ''2024-01-01'', ''2024-01-31'')] [''AAA'', ''BBB'']))
          (''benchmark_results/strategy_comparison_'' @ ''20240101_120000'' @ ''.csv'') = Some t
     \<and> [S ''s1'', S ''P1'', S ''BBB'', F 0, F 0, I 0, S ''TIMEOUT''] \<in> set (rows t)"
proof -
  let ?r1 = "\<lparr>return = 2, net = 10, trades = 3, status = ''SUCCESS'', period = ''P1'', symbol = ''AAA'', strategy = ''s1''\<rparr>"
  let ?r2 = "\<lparr>return = 0, net = 0, trades = 0, status = ''TIMEOUT'', period = ''P1'', symbol = ''BBB'', strategy = ''s1''\<rparr>"
  let ?results = "[''s1'' \<mapsto> [?r1, ?r2]]"
  let ?f0 = "\<lparr>dirs = {}, files = Map.empty\<rparr> :: fs"
  have run: "cs_run_trials stub_run [''s1''] [(''P1'', ''2024-01-01'', ''2024-01-31'')] [''AAA'', ''BBB''] = Inr ?results"
    by (simp add: cs_run_trials_def stub_first stub_second cs_record_def)
  have all: "cs_all_results [''s1''] ?results = Inr [?r1, ?r2]"
    by simp
  have rin: "?r2 \<in> set [?r1, ?r2]" by simp
  have st: "status ?r2 \<noteq> ''SUCCESS''" by simp
  have a: "''benchmark_results'' \<notin> dom (files ?f0)" by simp
  have b: "''benchmark_results/strategy_comparison_'' @ ''20240101_120000'' @ ''.csv'' \<notin> dirs ?f0"
    by simp
  from failed_trials_kept_but_not_counted[OF run all rin st, of ?f0 "''20240101_120000''"] a b
  obtain t where t: "files (fst (cs_main stub_run ''20240101_120000'' ?f0
                     [''s1''] [(''P1'', ''2024-01-01'', ''2024-01-31'')] [''AAA'', ''BBB'']))
          (''benchmark_results/strategy_comparison_'' @ ''20240101_120000'' @ ''.csv'') = Some t"
      "[S (strategy ?r2), S (period ?r2), S (symbol ?r2), F 0, F 0, I 0, S (status ?r2)] \<in> set (rows t)"
    by blast
  from t(2) have row: "[S ''s1'', S ''P1'', S ''BBB'', F 0, F 0, I 0, S ''TIMEOUT''] \<in> set (rows t)"
    by simp
  show ?thesis
    using failed_trials_kept_but_not_counted[OF run all rin st, of ?f0 "''20240101_120000''"] run all t(1) row
    by (intro exI[of _ ?results] exI[of _ "[?r1, ?r2]"] exI[of _ ?r2] exI[of _ t]) simp
qed

end
